theory Spec2Isabelle
  imports Complex_Main
begin

section \<open>The 3D scene editor: geometry, snapping, selection, dimensions\<close>

text \<open>
  A shallow embedding of the scene editor's script. A JavaScript number is modelled
  by the real number it stands for, and every arithmetic operation of the script
  rounds its exact result with a rounding function \<open>rnd\<close> that all definitions take
  as a parameter; \<open>roundDouble\<close> is the rounding of IEEE double precision. Results too
  large for a double are outside the model. Infinity enters the script only as a
  requested dimension that \<^verbatim>\<open>parseFloat\<close> returns; an object whose transform holds it
  is marked \<open>nonFinite\<close>.
  Object references are modelled by the \<^verbatim>\<open>uuid\<close> the scene-graph library gives every
  object, and a reference to a registry entry by the entry's index in the append-only
  registry \<^verbatim>\<open>loadedObjects\<close>. Rendering, materials, display names, the texts of the
  prompts and alerts, and the cached extents of the highlight boxes are left out.
\<close>

subsection \<open>Arithmetic\<close>

text \<open>
  The four operations: the exact result, rounded. Zero and one act exactly, as they
  do on every double (\<open>x + 0\<close>, \<open>x - 0\<close>, \<open>0 - x\<close>, \<open>x * 1\<close>, \<open>x * 0\<close>, \<open>0 / x\<close> and
  \<open>x / 1\<close> are not rounded), so that nothing has to be assumed about the numbers the
  model is given. Negation and the comparisons are exact.
\<close>

definition fadd :: "(real \<Rightarrow> real) \<Rightarrow> real \<Rightarrow> real \<Rightarrow> real" where
  "fadd rnd a b = (if a = 0 then b else if b = 0 then a else rnd (a + b))"

definition fsub :: "(real \<Rightarrow> real) \<Rightarrow> real \<Rightarrow> real \<Rightarrow> real" where
  "fsub rnd a b = (if b = 0 then a else if a = 0 then - b else rnd (a - b))"

definition fmul :: "(real \<Rightarrow> real) \<Rightarrow> real \<Rightarrow> real \<Rightarrow> real" where
  "fmul rnd a b =
     (if a = 0 \<or> b = 0 then 0 else if a = 1 then b else if b = 1 then a else rnd (a * b))"

definition fdiv :: "(real \<Rightarrow> real) \<Rightarrow> real \<Rightarrow> real \<Rightarrow> real" where
  "fdiv rnd a b = (if a = 0 then 0 else if b = 1 then a else rnd (a / b))"

text \<open>
  Rounding to the nearest double, ties to the even significand: \<open>findExponent\<close> finds
  the binade \<open>2 ^ e \<le> x < 2 ^ (e + 1)\<close> of a positive number, in which the doubles are
  the multiples of \<open>2 ^ (e - 52)\<close>. The exponent range is not bounded: overflow and
  gradual underflow are outside the model.
\<close>

definition roundHalfEven :: "real \<Rightarrow> int" where
  "roundHalfEven y =
     (let f = \<lfloor>y\<rfloor>; r = y - of_int f
      in if r < 1 / 2 then f else if 1 / 2 < r then f + 1 else if even f then f else f + 1)"

function findExponent :: "real \<Rightarrow> int \<Rightarrow> int" where
  "findExponent x e =
     (if x \<le> 0 then e
      else if x < 2 powi e then findExponent x (e - 1)
      else if 2 powi (e + 1) \<le> x then findExponent x (e + 1)
      else e)"
  by pat_completeness auto

termination
proof (relation "measure (\<lambda>(x, e). nat \<bar>e - \<lfloor>log 2 x\<rfloor>\<bar>)")
  have bounds: "2 powi \<lfloor>log 2 x\<rfloor> \<le> x \<and> x < 2 powi (\<lfloor>log 2 x\<rfloor> + 1)" if "0 < x" for x :: real
  proof -
    have "2 powr (of_int \<lfloor>log 2 x\<rfloor>) \<le> x \<and> x < 2 powr (of_int (\<lfloor>log 2 x\<rfloor> + 1))"
      using floor_log_eq_powr_iff [of x 2 "\<lfloor>log 2 x\<rfloor>"] that by simp
    moreover have "(2::real) powr (of_int k) = 2 powi k" for k
      by (rule powr_real_of_int') simp_all
    ultimately show ?thesis by metis
  qed
  have mono: "(2::real) powi a \<le> 2 powi b" if "a \<le> b" for a b
    using that by (intro power_int_increasing) simp_all
  show "wf (measure (\<lambda>(x, e). nat \<bar>e - \<lfloor>log 2 x\<rfloor>\<bar>))" by simp
  show "((x, e - 1), (x, e)) \<in> measure (\<lambda>(x, e). nat \<bar>e - \<lfloor>log 2 x\<rfloor>\<bar>)"
    if "\<not> x \<le> 0" "x < 2 powi e" for x :: real and e
  proof -
    have "\<lfloor>log 2 x\<rfloor> < e"
    proof (rule ccontr)
      assume "\<not> \<lfloor>log 2 x\<rfloor> < e"
      hence "(2::real) powi e \<le> 2 powi \<lfloor>log 2 x\<rfloor>" by (intro mono) simp
      with bounds [of x] that show False by simp
    qed
    thus ?thesis by simp
  qed
  show "((x, e + 1), (x, e)) \<in> measure (\<lambda>(x, e). nat \<bar>e - \<lfloor>log 2 x\<rfloor>\<bar>)"
    if "\<not> x \<le> 0" "\<not> x < 2 powi e" "2 powi (e + 1) \<le> x" for x :: real and e
  proof -
    have "e < \<lfloor>log 2 x\<rfloor>"
    proof (rule ccontr)
      assume "\<not> e < \<lfloor>log 2 x\<rfloor>"
      hence "(2::real) powi (\<lfloor>log 2 x\<rfloor> + 1) \<le> 2 powi (e + 1)" by (intro mono) simp
      with bounds [of x] that show False by simp
    qed
    thus ?thesis by simp
  qed
qed

definition roundDouble :: "real \<Rightarrow> real" where
  "roundDouble x =
     (if x = 0 then 0
      else (let e = findExponent \<bar>x\<bar> 0
            in of_int (roundHalfEven (x * 2 powi (52 - e))) * 2 powi (e - 52)))"

subsection \<open>Vectors, boxes, objects\<close>

record vec3 =
  vx :: real
  vy :: real
  vz :: real

datatype axisName = AxisX | AxisY | AxisZ

fun getComponent :: "axisName \<Rightarrow> vec3 \<Rightarrow> real" where
  "getComponent AxisX v = vx v"
| "getComponent AxisY v = vy v"
| "getComponent AxisZ v = vz v"

definition addv :: "(real \<Rightarrow> real) \<Rightarrow> vec3 \<Rightarrow> vec3 \<Rightarrow> vec3" where
  "addv rnd a b = \<lparr>vx = fadd rnd (vx a) (vx b), vy = fadd rnd (vy a) (vy b),
                   vz = fadd rnd (vz a) (vz b)\<rparr>"

definition mulv :: "(real \<Rightarrow> real) \<Rightarrow> vec3 \<Rightarrow> vec3 \<Rightarrow> vec3" where
  "mulv rnd a b = \<lparr>vx = fmul rnd (vx a) (vx b), vy = fmul rnd (vy a) (vy b),
                   vz = fmul rnd (vz a) (vz b)\<rparr>"

definition dotv :: "(real \<Rightarrow> real) \<Rightarrow> vec3 \<Rightarrow> vec3 \<Rightarrow> real" where
  "dotv rnd a b =
     fadd rnd (fadd rnd (fmul rnd (vx a) (vx b)) (fmul rnd (vy a) (vy b)))
       (fmul rnd (vz a) (vz b))"

text \<open>The rotation part of a transform, as the rows of its 3x3 matrix.\<close>

record mat3 =
  row1 :: vec3
  row2 :: vec3
  row3 :: vec3

definition applyMat :: "(real \<Rightarrow> real) \<Rightarrow> mat3 \<Rightarrow> vec3 \<Rightarrow> vec3" where
  "applyMat rnd m v =
     \<lparr>vx = dotv rnd (row1 m) v, vy = dotv rnd (row2 m) v, vz = dotv rnd (row3 m) v\<rparr>"

definition identityRotation :: mat3 where
  "identityRotation =
     \<lparr>row1 = \<lparr>vx = 1, vy = 0, vz = 0\<rparr>,
      row2 = \<lparr>vx = 0, vy = 1, vz = 0\<rparr>,
      row3 = \<lparr>vx = 0, vy = 0, vz = 1\<rparr>\<rparr>"

text \<open>
  An axis-aligned box. The library's empty box (minimum at plus infinity, maximum at
  minus infinity) is the value \<open>None\<close> of \<open>box3 option\<close>; a box built from at least one
  point is never empty.
\<close>

record box3 =
  bmin :: vec3
  bmax :: vec3

text \<open>
  A scene object: its identity, its transform (position, rotation, scale) and the
  vertices of the object and its descendants in the object's local frame (the mesh
  loader leaves the children of the group it returns untransformed).

  \<open>nonFinite\<close> marks an object whose scale was set from a requested dimension
  \<^verbatim>\<open>Infinity\<close>. The library's world matrix of such an object holds the product of
  zero and infinity, so every coordinate of its bounding box is not-a-number or
  infinite, and so is the position the script then computes from the box: of such
  an object the fields \<open>position\<close> and \<open>scale\<close> carry no information.
\<close>

record object3d =
  uuid :: nat
  position :: vec3
  rotation :: mat3
  scale :: vec3
  geometry :: "vec3 list"
  nonFinite :: bool

subsection \<open>Geometry query\<close>

fun expandByPoint :: "box3 option \<Rightarrow> vec3 \<Rightarrow> box3 option" where
  "expandByPoint None p = Some \<lparr>bmin = p, bmax = p\<rparr>"
| "expandByPoint (Some b) p =
     Some \<lparr>bmin = \<lparr>vx = min (vx (bmin b)) (vx p), vy = min (vy (bmin b)) (vy p),
                   vz = min (vz (bmin b)) (vz p)\<rparr>,
           bmax = \<lparr>vx = max (vx (bmax b)) (vx p), vy = max (vy (bmax b)) (vy p),
                   vz = max (vz (bmax b)) (vz p)\<rparr>\<rparr>"

definition setFromPoints :: "vec3 list \<Rightarrow> box3 option" where
  "setFromPoints ps = foldl expandByPoint None ps"

text \<open>
  Modelled from the spec: the scene-graph library's world matrix and
  \<^verbatim>\<open>Box3.setFromObject\<close> are not part of the source. The spec (4.1) gives the
  bounding box as the minimal axis-aligned box enclosing all world-space vertices of
  the object and its descendants; a world-space vertex is the local vertex scaled,
  then rotated, then translated. \<open>localOffset\<close> is the vertex before the translation.
\<close>

definition localOffset :: "(real \<Rightarrow> real) \<Rightarrow> object3d \<Rightarrow> vec3 \<Rightarrow> vec3" where
  "localOffset rnd ob v = applyMat rnd (rotation ob) (mulv rnd (scale ob) v)"

definition worldVertex :: "(real \<Rightarrow> real) \<Rightarrow> object3d \<Rightarrow> vec3 \<Rightarrow> vec3" where
  "worldVertex rnd ob v = addv rnd (position ob) (localOffset rnd ob v)"

text \<open>
  The result \<open>None\<close> stands for a box that is empty or, for a \<open>nonFinite\<close> object,
  not finite. The library does not count a box of not-a-numbers as empty, but no
  comparison with one of its coordinates holds; the callers for which the
  difference matters test \<open>nonFinite\<close> first.
\<close>

definition getObjectAABB :: "(real \<Rightarrow> real) \<Rightarrow> object3d \<Rightarrow> box3 option" where
  "getObjectAABB rnd ob =
     (if nonFinite ob then None else setFromPoints (map (worldVertex rnd ob) (geometry ob)))"

definition getSize :: "(real \<Rightarrow> real) \<Rightarrow> box3 \<Rightarrow> vec3" where
  "getSize rnd b =
     \<lparr>vx = fsub rnd (vx (bmax b)) (vx (bmin b)), vy = fsub rnd (vy (bmax b)) (vy (bmin b)),
      vz = fsub rnd (vz (bmax b)) (vz (bmin b))\<rparr>"

definition getCenter :: "(real \<Rightarrow> real) \<Rightarrow> box3 \<Rightarrow> vec3" where
  "getCenter rnd b =
     \<lparr>vx = fmul rnd (fadd rnd (vx (bmin b)) (vx (bmax b))) (1 / 2),
      vy = fmul rnd (fadd rnd (vy (bmin b)) (vy (bmax b))) (1 / 2),
      vz = fmul rnd (fadd rnd (vz (bmin b)) (vz (bmax b))) (1 / 2)\<rparr>"

text \<open>The dimensions of an object; those of a \<open>nonFinite\<close> object are not numbers.\<close>

datatype dims = NonFiniteDims | Dims vec3

definition getObjectDimensions :: "(real \<Rightarrow> real) \<Rightarrow> object3d \<Rightarrow> dims" where
  "getObjectDimensions rnd ob =
     (if nonFinite ob then NonFiniteDims
      else (case getObjectAABB rnd ob of
              None \<Rightarrow> Dims \<lparr>vx = 0, vy = 0, vz = 0\<rparr>
            | Some b \<Rightarrow> Dims (getSize rnd b)))"

subsection \<open>Registry entries\<close>

definition BOX_HELPER_COLOR_INACTIVE :: nat where
  "BOX_HELPER_COLOR_INACTIVE = 0xaaaaaa"

definition BOX_HELPER_COLOR_ACTIVE :: nat where
  "BOX_HELPER_COLOR_ACTIVE = 0x0000ff"

text \<open>The literal \<^verbatim>\<open>0.2\<close> denotes the number nearest to it.\<close>

definition SNAP_THRESHOLD :: "(real \<Rightarrow> real) \<Rightarrow> real" where
  "SNAP_THRESHOLD rnd = rnd (2 / 10)"

record boxHelper =
  color :: nat
  visible :: bool

text \<open>
  A list row: the uuid in its data attribute, whether its class list holds
  \<^verbatim>\<open>selected\<close>, and the dimensions its label shows (before formatting).
\<close>

record listItem =
  objectUuid :: nat
  selectedClass :: bool
  dimsLabel :: "dims option"

record objectData =
  object :: object3d
  initialSize :: vec3
  listItem :: listItem
  boxHelper :: "boxHelper option"

subsection \<open>Snapping\<close>

record snapCheck =
  axis :: axisName
  delta :: real

definition snapChecks :: "(real \<Rightarrow> real) \<Rightarrow> box3 \<Rightarrow> box3 \<Rightarrow> snapCheck list" where
  "snapChecks rnd sourceBox targetBox =
     [\<lparr>axis = AxisX, delta = fsub rnd (vx (bmin targetBox)) (vx (bmax sourceBox))\<rparr>,
      \<lparr>axis = AxisX, delta = fsub rnd (vx (bmax targetBox)) (vx (bmin sourceBox))\<rparr>,
      \<lparr>axis = AxisZ, delta = fsub rnd (vz (bmin targetBox)) (vz (bmax sourceBox))\<rparr>,
      \<lparr>axis = AxisZ, delta = fsub rnd (vz (bmax targetBox)) (vz (bmin sourceBox))\<rparr>,
      \<lparr>axis = AxisY, delta = fsub rnd (vy (bmin targetBox)) (vy (bmax sourceBox))\<rparr>,
      \<lparr>axis = AxisY, delta = fsub rnd (vy (bmax targetBox)) (vy (bmin sourceBox))\<rparr>]"

fun overlaps :: "axisName \<Rightarrow> box3 \<Rightarrow> box3 \<Rightarrow> bool" where
  "overlaps AxisX sourceBox targetBox =
     (vy (bmin sourceBox) < vy (bmax targetBox) \<and> vy (bmax sourceBox) > vy (bmin targetBox) \<and>
      vz (bmin sourceBox) < vz (bmax targetBox) \<and> vz (bmax sourceBox) > vz (bmin targetBox))"
| "overlaps AxisZ sourceBox targetBox =
     (vy (bmin sourceBox) < vy (bmax targetBox) \<and> vy (bmax sourceBox) > vy (bmin targetBox) \<and>
      vx (bmin sourceBox) < vx (bmax targetBox) \<and> vx (bmax sourceBox) > vx (bmin targetBox))"
| "overlaps AxisY sourceBox targetBox =
     (vx (bmin sourceBox) < vx (bmax targetBox) \<and> vx (bmax sourceBox) > vx (bmin targetBox) \<and>
      vz (bmin sourceBox) < vz (bmax targetBox) \<and> vz (bmax sourceBox) > vz (bmin targetBox))"

text \<open>
  The search state of \<^verbatim>\<open>applySnapAdjustment\<close>: \<^verbatim>\<open>minSnapDistSq\<close> and
  \<^verbatim>\<open>bestSnapDelta\<close>. \<open>checkLoop\<close> is the inner loop over the six checks of one
  target, \<open>targetLoop\<close> the outer loop over the registry.
\<close>

type_synonym snapState = "real \<times> snapCheck option"

fun checkLoop ::
  "(real \<Rightarrow> real) \<Rightarrow> box3 \<Rightarrow> box3 \<Rightarrow> snapCheck list \<Rightarrow> snapState \<Rightarrow> snapState" where
  "checkLoop rnd sourceBox targetBox [] st = st"
| "checkLoop rnd sourceBox targetBox (c # cs) (minSnapDistSq, bestSnapDelta) =
     (let distSq = fmul rnd (delta c) (delta c) in
      if distSq < minSnapDistSq then
        (if overlaps (axis c) sourceBox targetBox
         then checkLoop rnd sourceBox targetBox cs
                (distSq, Some \<lparr>axis = axis c, delta = delta c\<rparr>)
         else checkLoop rnd sourceBox targetBox cs (minSnapDistSq, bestSnapDelta))
      else checkLoop rnd sourceBox targetBox cs (minSnapDistSq, bestSnapDelta))"

text \<open>
  A target whose box is not finite is passed over like one whose box is empty: none
  of its six squared distances compares below the running minimum.
\<close>

fun targetLoop ::
  "(real \<Rightarrow> real) \<Rightarrow> object3d \<Rightarrow> box3 \<Rightarrow> objectData list \<Rightarrow> snapState \<Rightarrow> snapState" where
  "targetLoop rnd sourceObject sourceBox [] st = st"
| "targetLoop rnd sourceObject sourceBox (targetData # rest) st =
     (if uuid (object targetData) = uuid sourceObject
      then targetLoop rnd sourceObject sourceBox rest st
      else (case getObjectAABB rnd (object targetData) of
              None \<Rightarrow> targetLoop rnd sourceObject sourceBox rest st
            | Some targetBox \<Rightarrow>
                targetLoop rnd sourceObject sourceBox rest
                  (checkLoop rnd sourceBox targetBox (snapChecks rnd sourceBox targetBox) st)))"

definition groundCheck :: "(real \<Rightarrow> real) \<Rightarrow> box3 \<Rightarrow> snapState \<Rightarrow> snapCheck option" where
  "groundCheck rnd sourceBox st =
     (let groundDist = vy (bmin sourceBox);
          groundDistSq = fmul rnd groundDist groundDist
      in if groundDistSq < fst st \<and> \<bar>groundDist\<bar> < SNAP_THRESHOLD rnd
         then Some \<lparr>axis = AxisY, delta = - groundDist\<rparr>
         else snd st)"

definition snapVector :: "snapCheck \<Rightarrow> vec3" where
  "snapVector c =
     (case axis c of
        AxisX \<Rightarrow> \<lparr>vx = delta c, vy = 0, vz = 0\<rparr>
      | AxisY \<Rightarrow> \<lparr>vx = 0, vy = delta c, vz = 0\<rparr>
      | AxisZ \<Rightarrow> \<lparr>vx = 0, vy = 0, vz = delta c\<rparr>)"

text \<open>
  The snap search: steps 1 and 2 of \<^verbatim>\<open>applySnapAdjustment\<close>, the value of
  \<^verbatim>\<open>bestSnapDelta\<close> when step 3 reads it.
\<close>

definition bestSnap ::
  "(real \<Rightarrow> real) \<Rightarrow> objectData list \<Rightarrow> object3d \<Rightarrow> box3 \<Rightarrow> snapCheck option" where
  "bestSnap rnd loadedObjects sourceObject sourceBox =
     groundCheck rnd sourceBox
       (targetLoop rnd sourceObject sourceBox loadedObjects
          (fmul rnd (SNAP_THRESHOLD rnd) (SNAP_THRESHOLD rnd), None))"

text \<open>
  \<^verbatim>\<open>applySnapAdjustment\<close> mutates the position of the object it is given; the model
  returns the object after the call. The registry is only read. The guard against a
  missing object has no counterpart: the only caller passes the selected object.
  A moving object whose box is not finite is left as it is, like one whose box is
  empty: none of its checks and no ground check compares below the threshold.
\<close>

definition applySnapAdjustment ::
  "(real \<Rightarrow> real) \<Rightarrow> objectData list \<Rightarrow> object3d \<Rightarrow> object3d" where
  "applySnapAdjustment rnd loadedObjects sourceObject =
     (case getObjectAABB rnd sourceObject of
        None \<Rightarrow> sourceObject
      | Some sourceBox \<Rightarrow>
          (case bestSnap rnd loadedObjects sourceObject sourceBox of
             None \<Rightarrow> sourceObject
           | Some best \<Rightarrow>
               sourceObject\<lparr>position := addv rnd (position sourceObject) (snapVector best)\<rparr>))"

subsection \<open>Application state\<close>

datatype transformMode = Translate | Rotate | Scale

text \<open>
  The module-level variables and the parts of the collaborators the script writes:
  the gizmo (attached object, mode, shown axes), the orbit control's switch, what has
  been added to the scene and to the list element, the loading spinner and the value
  of the file input.
\<close>

record state =
  loadedObjects :: "objectData list"
  selectedObjectData :: "nat option"
  isDraggingTransform :: bool
  objectNameCounter :: nat
  orbitEnabled :: bool
  attached :: "nat option"
  mode :: transformMode
  showX :: bool
  showY :: bool
  showZ :: bool
  sceneObjects :: "nat list"
  sceneHelpers :: "nat list"
  listRows :: "nat list"
  spinnerShown :: bool
  fileInputValue :: string

fun findObjectDataFrom :: "nat \<Rightarrow> objectData list \<Rightarrow> nat \<Rightarrow> nat option" where
  "findObjectDataFrom i [] ob = None"
| "findObjectDataFrom i (d # ds) ob =
     (if uuid (object d) = ob then Some i else findObjectDataFrom (Suc i) ds ob)"

definition findObjectData :: "objectData list \<Rightarrow> nat \<Rightarrow> nat option" where
  "findObjectData ds ob = findObjectDataFrom 0 ds ob"

definition updateBoxHelperState :: "objectData \<Rightarrow> bool \<Rightarrow> bool \<Rightarrow> objectData" where
  "updateBoxHelperState objectData isSelected isDragging =
     (case boxHelper objectData of
        None \<Rightarrow> objectData
      | Some helper \<Rightarrow>
          (if isSelected
           then objectData\<lparr>boxHelper :=
                  Some (helper\<lparr>color := BOX_HELPER_COLOR_ACTIVE, visible := True\<rparr>)\<rparr>
           else objectData\<lparr>boxHelper :=
                  Some (helper\<lparr>color := BOX_HELPER_COLOR_INACTIVE, visible := isDragging\<rparr>)\<rparr>))"

text \<open>
  \<^verbatim>\<open>loadedObjects.forEach(data => updateBoxHelperState(data, data === selectedObjectData, d))\<close>
\<close>

definition updateAllBoxHelpers :: "nat option \<Rightarrow> bool \<Rightarrow> objectData list \<Rightarrow> objectData list" where
  "updateAllBoxHelpers sel isDragging ds =
     map (\<lambda>(j, d). updateBoxHelperState d (sel = Some j) isDragging) (enumerate 0 ds)"

definition setSelectedClass :: "bool \<Rightarrow> objectData \<Rightarrow> objectData" where
  "setSelectedClass b d = d\<lparr>listItem := (listItem d)\<lparr>selectedClass := b\<rparr>\<rparr>"

definition deselectObject :: "state \<Rightarrow> state" where
  "deselectObject st =
     (let st1 =
        (case selectedObjectData st of
           None \<Rightarrow> st
         | Some s \<Rightarrow>
             st\<lparr>loadedObjects :=
                  (loadedObjects st)
                    [s := updateBoxHelperState
                            (setSelectedClass False (loadedObjects st ! s)) False False],
                attached := None,
                selectedObjectData := None\<rparr>)
      in if isDraggingTransform st1
         then st1\<lparr>isDraggingTransform := False,
                  orbitEnabled := True,
                  loadedObjects :=
                    map (\<lambda>d. updateBoxHelperState d False False) (loadedObjects st1)\<rparr>
         else st1)"

definition setTransformMode :: "state \<Rightarrow> transformMode \<Rightarrow> state" where
  "setTransformMode st m =
     (case selectedObjectData st of
        None \<Rightarrow> st
      | Some s \<Rightarrow>
          st\<lparr>mode := m,
             showX := (m \<noteq> Rotate), showY := True, showZ := (m \<noteq> Rotate),
             loadedObjects :=
               updateAllBoxHelpers (selectedObjectData st)
                 (isDraggingTransform st \<and> m = Translate) (loadedObjects st)\<rparr>)"

definition selectObject :: "state \<Rightarrow> nat \<Rightarrow> state" where
  "selectObject st ob =
     (case findObjectData (loadedObjects st) ob of
        None \<Rightarrow> st
      | Some i \<Rightarrow>
          if (case selectedObjectData st of
                None \<Rightarrow> False
              | Some s \<Rightarrow> uuid (object (loadedObjects st ! s)) = ob)
          then st
          else
            (let st1 = deselectObject st;
                 st2 = st1\<lparr>selectedObjectData := Some i\<rparr>;
                 st3 = st2\<lparr>loadedObjects :=
                            (loadedObjects st2)
                              [i := setSelectedClass True (loadedObjects st2 ! i)]\<rparr>;
                 st4 = st3\<lparr>attached := Some (uuid (object (loadedObjects st3 ! i)))\<rparr>;
                 st5 = setTransformMode st4 Translate
             in st5\<lparr>loadedObjects :=
                      (loadedObjects st5)
                        [i := updateBoxHelperState (loadedObjects st5 ! i) True
                                (isDraggingTransform st5)]\<rparr>))"

text \<open>A sequence of calls of the two selection operations.\<close>

datatype selectionCall = SelectObject nat | DeselectObject

fun runCall :: "state \<Rightarrow> selectionCall \<Rightarrow> state" where
  "runCall st (SelectObject ob) = selectObject st ob"
| "runCall st DeselectObject = deselectObject st"

definition runCalls :: "selectionCall list \<Rightarrow> state \<Rightarrow> state" where
  "runCalls cs st = foldl runCall st cs"

subsection \<open>Dimension prompts\<close>

text \<open>
  The result of \<^verbatim>\<open>parseFloat\<close>, which is not part of the source and is a parameter
  of the two operations that call it: not-a-number, an infinity, or a number.
\<close>

datatype jsnum = NaN | PosInfinity | NegInfinity | Num real

definition isNaN :: "jsnum \<Rightarrow> bool" where
  "isNaN n = (case n of NaN \<Rightarrow> True | _ \<Rightarrow> False)"

text \<open>The comparison \<^verbatim>\<open>n <= 0\<close>, which is false of not-a-number.\<close>

definition notPositive :: "jsnum \<Rightarrow> bool" where
  "notPositive n =
     (case n of NaN \<Rightarrow> False | PosInfinity \<Rightarrow> False | NegInfinity \<Rightarrow> True | Num v \<Rightarrow> v \<le> 0)"

text \<open>
  The three answers to the prompts; \<open>None\<close> is a cancelled prompt (\<^verbatim>\<open>null\<close>).
\<close>

record dimensionAnswers =
  desiredWidthStr :: "string option"
  desiredHeightStr :: "string option"
  desiredDepthStr :: "string option"

text \<open>
  The validation lets the positive infinity through; \<open>InfiniteDimensions\<close> is the
  outcome in which at least one of three accepted dimensions is infinite.
\<close>

datatype promptOutcome = Cancelled | InvalidInput | Dimensions real real real | InfiniteDimensions

text \<open>
  The prompt-and-validate block that the import and the edit share word for word:
  a cancelled prompt ends it before the later prompts are parsed; then all three
  strings are parsed and rejected together.
\<close>

definition promptDimensions :: "(string \<Rightarrow> jsnum) \<Rightarrow> dimensionAnswers \<Rightarrow> promptOutcome" where
  "promptDimensions parseFloat ans =
     (case desiredWidthStr ans of
        None \<Rightarrow> Cancelled
      | Some ws \<Rightarrow>
     (case desiredHeightStr ans of
        None \<Rightarrow> Cancelled
      | Some hs \<Rightarrow>
     (case desiredDepthStr ans of
        None \<Rightarrow> Cancelled
      | Some ds \<Rightarrow>
     (let desiredWidth = parseFloat ws;
          desiredHeight = parseFloat hs;
          desiredDepth = parseFloat ds
      in if isNaN desiredWidth \<or> isNaN desiredHeight \<or> isNaN desiredDepth \<or>
            notPositive desiredWidth \<or> notPositive desiredHeight \<or> notPositive desiredDepth
         then InvalidInput
         else (case (desiredWidth, desiredHeight, desiredDepth) of
                 (Num w, Num h, Num d) \<Rightarrow> Dimensions w h d
               | _ \<Rightarrow> InfiniteDimensions)))))"

definition updateListItemContent :: "(real \<Rightarrow> real) \<Rightarrow> state \<Rightarrow> nat \<Rightarrow> state" where
  "updateListItemContent rnd st i =
     (let objectData = loadedObjects st ! i;
          currentDims = getObjectDimensions rnd (object objectData);
          item1 = (listItem objectData)\<lparr>dimsLabel := Some currentDims\<rparr>;
          item2 = (case selectedObjectData st of
                     None \<Rightarrow> item1
                   | Some s \<Rightarrow>
                       if uuid (object (loadedObjects st ! s)) = uuid (object objectData)
                       then item1\<lparr>selectedClass := True\<rparr> else item1)
      in st\<lparr>loadedObjects := (loadedObjects st)[i := objectData\<lparr>listItem := item2\<rparr>]\<rparr>)"

subsection \<open>Import\<close>

datatype parseOutcome = ParseThrows | Parsed "vec3 list"

datatype readOutcome = ReadError | Loaded parseOutcome

text \<open>
  What one file selection brings from outside: the chosen file's name (if any), what
  reading and parsing it give, the uuid of the object the loader creates, and the
  user's answers to the prompts.
\<close>

record fileEvent =
  fileName :: "string option"
  readResult :: readOutcome
  newUuid :: nat
  answers :: dimensionAnswers

text \<open>\<^verbatim>\<open>file.name.toLowerCase().endsWith('.obj')\<close>, for the letters of the suffix.\<close>

definition isObjFileName :: "string \<Rightarrow> bool" where
  "isObjFileName name =
     (case rev name of
        c4 # c3 # c2 # c1 # _ \<Rightarrow>
          c1 = CHR ''.'' \<and> (c2 = CHR ''o'' \<or> c2 = CHR ''O'') \<and>
          (c3 = CHR ''b'' \<or> c3 = CHR ''B'') \<and> (c4 = CHR ''j'' \<or> c4 = CHR ''J'')
      | _ \<Rightarrow> False)"

text \<open>The literal \<^verbatim>\<open>1e-6\<close> denotes the number nearest to it.\<close>

definition epsilonSize :: "(real \<Rightarrow> real) \<Rightarrow> real" where
  "epsilonSize rnd = rnd (1 / 1000000)"

definition clampZero :: "(real \<Rightarrow> real) \<Rightarrow> real \<Rightarrow> real" where
  "clampZero rnd v = (if v = 0 then epsilonSize rnd else v)"

text \<open>The natural size captured at import: line 213 of the script.\<close>

definition naturalSize :: "(real \<Rightarrow> real) \<Rightarrow> object3d \<Rightarrow> vec3" where
  "naturalSize rnd ob =
     (let s = (case getObjectAABB rnd ob of
                 None \<Rightarrow> \<lparr>vx = epsilonSize rnd, vy = epsilonSize rnd, vz = epsilonSize rnd\<rparr>
               | Some initialBox \<Rightarrow> getSize rnd initialBox)
      in \<lparr>vx = clampZero rnd (vx s), vy = clampZero rnd (vy s), vz = clampZero rnd (vz s)\<rparr>)"

text \<open>The object as the loader returns it: untransformed.\<close>

definition parsedObject :: "nat \<Rightarrow> vec3 list \<Rightarrow> object3d" where
  "parsedObject u vs =
     \<lparr>uuid = u, position = \<lparr>vx = 0, vy = 0, vz = 0\<rparr>, rotation = identityRotation,
      scale = \<lparr>vx = 1, vy = 1, vz = 1\<rparr>, geometry = vs, nonFinite = False\<rparr>"

text \<open>Lines 215 and 217: scale to the requested size, recenter and ground.\<close>

definition scaleAndPlace ::
  "(real \<Rightarrow> real) \<Rightarrow> object3d \<Rightarrow> vec3 \<Rightarrow> real \<Rightarrow> real \<Rightarrow> real \<Rightarrow> object3d" where
  "scaleAndPlace rnd ob initSize desiredWidth desiredHeight desiredDepth =
     (let scaled = ob\<lparr>scale := \<lparr>vx = fdiv rnd desiredWidth (vx initSize),
                                 vy = fdiv rnd desiredHeight (vy initSize),
                                 vz = fdiv rnd desiredDepth (vz initSize)\<rparr>\<rparr>
      in case getObjectAABB rnd scaled of
           Some scaledBox \<Rightarrow>
             scaled\<lparr>position := \<lparr>vx = - vx (getCenter rnd scaledBox),
                                  vy = - vy (bmin scaledBox),
                                  vz = - vz (getCenter rnd scaledBox)\<rparr>\<rparr>
         | None \<Rightarrow> scaled\<lparr>position := \<lparr>vx = 0, vy = 0, vz = 0\<rparr>\<rparr>)"

text \<open>
  The placed object of an import or an edit: scaled and positioned for finite
  requested dimensions; with an infinite one the scale, and with it the box and the
  position set from the box, is no longer finite.
\<close>

definition placeImported ::
  "(real \<Rightarrow> real) \<Rightarrow> object3d \<Rightarrow> vec3 \<Rightarrow> promptOutcome \<Rightarrow> object3d" where
  "placeImported rnd ob initSize outcome =
     (case outcome of
        Dimensions desiredWidth desiredHeight desiredDepth \<Rightarrow>
          scaleAndPlace rnd ob initSize desiredWidth desiredHeight desiredDepth
      | _ \<Rightarrow> ob\<lparr>nonFinite := True\<rparr>)"

definition finishImport :: "state \<Rightarrow> state" where
  "finishImport st = st\<lparr>spinnerShown := False, fileInputValue := []\<rparr>"

text \<open>The \<^verbatim>\<open>reader.onload\<close> callback: the body of the try block, then the finally block.\<close>

definition onLoad ::
  "(real \<Rightarrow> real) \<Rightarrow> (string \<Rightarrow> jsnum) \<Rightarrow> state \<Rightarrow> fileEvent \<Rightarrow> parseOutcome \<Rightarrow> state" where
  "onLoad rnd parseFloat st ev parsed =
     (case parsed of
        ParseThrows \<Rightarrow> finishImport st
      | Parsed vs \<Rightarrow>
          (let ob = parsedObject (newUuid ev) vs;
               initSize = naturalSize rnd ob;
               outcome = promptDimensions parseFloat (answers ev)
           in case outcome of
                Cancelled \<Rightarrow> finishImport st
              | InvalidInput \<Rightarrow> finishImport st
              | _ \<Rightarrow>
                  (let placed = placeImported rnd ob initSize outcome;
                       helper = \<lparr>color = BOX_HELPER_COLOR_INACTIVE, visible = False\<rparr>;
                       item = \<lparr>objectUuid = uuid placed, selectedClass = False, dimsLabel = None\<rparr>;
                       objectData = \<lparr>object = placed, initialSize = initSize,
                                     listItem = item, boxHelper = Some helper\<rparr>;
                       st1 = st\<lparr>objectNameCounter := objectNameCounter st + 1,
                                sceneHelpers := sceneHelpers st @ [uuid placed],
                                sceneObjects := sceneObjects st @ [uuid placed],
                                listRows := listRows st @ [uuid placed],
                                loadedObjects := loadedObjects st @ [objectData]\<rparr>;
                       st2 = updateListItemContent rnd st1 (length (loadedObjects st))
                   in finishImport (selectObject st2 (uuid placed)))))"

definition handleFileSelect ::
  "(real \<Rightarrow> real) \<Rightarrow> (string \<Rightarrow> jsnum) \<Rightarrow> state \<Rightarrow> fileEvent \<Rightarrow> state" where
  "handleFileSelect rnd parseFloat st ev =
     (case fileName ev of
        None \<Rightarrow> st\<lparr>fileInputValue := []\<rparr>
      | Some name \<Rightarrow>
          if \<not> isObjFileName name then st\<lparr>fileInputValue := []\<rparr>
          else
            (case readResult ev of
               ReadError \<Rightarrow> finishImport (st\<lparr>spinnerShown := True\<rparr>)
             | Loaded parsed \<Rightarrow> onLoad rnd parseFloat (st\<lparr>spinnerShown := True\<rparr>) ev parsed))"

subsection \<open>Editing dimensions\<close>

text \<open>
  Lines 334 and 335: set the scale from the natural size, keep X and Z, and set Y
  from the minimum of the new box.
\<close>

definition rescaleAndReground ::
  "(real \<Rightarrow> real) \<Rightarrow> object3d \<Rightarrow> vec3 \<Rightarrow> real \<Rightarrow> real \<Rightarrow> real \<Rightarrow> object3d" where
  "rescaleAndReground rnd ob initSize desiredWidth desiredHeight desiredDepth =
     (let currentX = vx (position ob);
          currentZ = vz (position ob);
          scaled = ob\<lparr>scale := \<lparr>vx = fdiv rnd desiredWidth (vx initSize),
                                  vy = fdiv rnd desiredHeight (vy initSize),
                                  vz = fdiv rnd desiredDepth (vz initSize)\<rparr>\<rparr>
      in case getObjectAABB rnd scaled of
           Some newBox \<Rightarrow>
             scaled\<lparr>position := \<lparr>vx = currentX, vy = - vy (bmin newBox), vz = currentZ\<rparr>\<rparr>
         | None \<Rightarrow>
             scaled\<lparr>position := (position scaled)\<lparr>vx := currentX, vz := currentZ\<rparr>\<rparr>)"

definition placeEdited ::
  "(real \<Rightarrow> real) \<Rightarrow> object3d \<Rightarrow> vec3 \<Rightarrow> promptOutcome \<Rightarrow> object3d" where
  "placeEdited rnd ob initSize outcome =
     (case outcome of
        Dimensions desiredWidth desiredHeight desiredDepth \<Rightarrow>
          rescaleAndReground rnd ob initSize desiredWidth desiredHeight desiredDepth
      | _ \<Rightarrow> ob\<lparr>nonFinite := True\<rparr>)"

text \<open>
  The argument is the reference to a registry entry, \<open>None\<close> for a missing one.
\<close>

definition promptAndSetDimensions ::
  "(real \<Rightarrow> real) \<Rightarrow> (string \<Rightarrow> jsnum) \<Rightarrow> state \<Rightarrow> nat option \<Rightarrow> dimensionAnswers \<Rightarrow> state" where
  "promptAndSetDimensions rnd parseFloat st ref ans =
     (case ref of
        None \<Rightarrow> st
      | Some i \<Rightarrow>
          (let objectData = loadedObjects st ! i;
               outcome = promptDimensions parseFloat ans
           in case outcome of
                Cancelled \<Rightarrow> st
              | InvalidInput \<Rightarrow> st
              | _ \<Rightarrow>
                  (let placed = placeEdited rnd (object objectData) (initialSize objectData)
                                  outcome;
                       st1 = st\<lparr>loadedObjects :=
                                  (loadedObjects st)[i := objectData\<lparr>object := placed\<rparr>]\<rparr>
                   in updateListItemContent rnd st1 i)))"

subsection \<open>Notions used to state the properties of snapping\<close>

text \<open>
  The search of \<open>checkLoop\<close> and \<open>targetLoop\<close> without the gate: a running strict
  minimum of the squared deltas that keeps the first check reaching it.
\<close>

fun scanChecks :: "(real \<Rightarrow> real) \<Rightarrow> snapCheck list \<Rightarrow> snapState \<Rightarrow> snapState" where
  "scanChecks rnd [] st = st"
| "scanChecks rnd (c # cs) (m, b) =
     (if fmul rnd (delta c) (delta c) < m
      then scanChecks rnd cs (fmul rnd (delta c) (delta c), Some c)
      else scanChecks rnd cs (m, b))"

text \<open>The checks of one target that pass the overlap gate, in the order of the loop.\<close>

definition gatedChecks :: "(real \<Rightarrow> real) \<Rightarrow> box3 \<Rightarrow> box3 \<Rightarrow> snapCheck list" where
  "gatedChecks rnd sourceBox targetBox =
     filter (\<lambda>c. overlaps (axis c) sourceBox targetBox) (snapChecks rnd sourceBox targetBox)"

text \<open>
  All gate-passing alignments of a moving object with the candidates of the registry
  (every entry but the moving object itself and the entries without a finite
  non-empty box), in the order in which the two loops meet them.
\<close>

fun eligibleChecks ::
  "(real \<Rightarrow> real) \<Rightarrow> object3d \<Rightarrow> box3 \<Rightarrow> objectData list \<Rightarrow> snapCheck list" where
  "eligibleChecks rnd sourceObject sourceBox [] = []"
| "eligibleChecks rnd sourceObject sourceBox (t # ts) =
     (if uuid (object t) = uuid sourceObject then eligibleChecks rnd sourceObject sourceBox ts
      else (case getObjectAABB rnd (object t) of
              None \<Rightarrow> eligibleChecks rnd sourceObject sourceBox ts
            | Some targetBox \<Rightarrow>
                gatedChecks rnd sourceBox targetBox @
                eligibleChecks rnd sourceObject sourceBox ts))"

text \<open>
  The registry as a later call sees it: the entries that refer to the moved object
  show its new position.
\<close>

definition registryAfter :: "objectData list \<Rightarrow> object3d \<Rightarrow> objectData list" where
  "registryAfter ds ob = map (\<lambda>d. if uuid (object d) = uuid ob then d\<lparr>object := ob\<rparr> else d) ds"

definition positiveVec :: "vec3 \<Rightarrow> bool" where
  "positiveVec v \<longleftrightarrow> 0 < vx v \<and> 0 < vy v \<and> 0 < vz v"

text \<open>What the registry operations never touch: the object and the natural size of an entry.\<close>

definition coreOf :: "objectData \<Rightarrow> object3d \<times> vec3" where
  "coreOf d = (object d, initialSize d)"

subsection \<open>The selection invariant\<close>

text \<open>
  An entry has a highlight box; the box is shown; the box is shown in the active colour.
\<close>

definition hasHelper :: "objectData \<Rightarrow> bool" where
  "hasHelper d = (case boxHelper d of None \<Rightarrow> False | Some h \<Rightarrow> True)"

definition highlightShown :: "objectData \<Rightarrow> bool" where
  "highlightShown d = (case boxHelper d of None \<Rightarrow> False | Some h \<Rightarrow> visible h)"

definition highlightActive :: "objectData \<Rightarrow> bool" where
  "highlightActive d =
     (case boxHelper d of None \<Rightarrow> False | Some h \<Rightarrow> visible h \<and> color h = BOX_HELPER_COLOR_ACTIVE)"

text \<open>
  Entry \<open>j\<close> is consistent with the selection: it has its highlight box, its list row
  carries the class \<^verbatim>\<open>selected\<close> exactly when it is the selected entry, and while no
  drag is in progress its highlight is shown exactly when it is the selected entry,
  and then in the active colour.
\<close>

definition entryOk :: "state \<Rightarrow> nat \<Rightarrow> bool" where
  "entryOk st j \<longleftrightarrow>
     hasHelper (loadedObjects st ! j) \<and>
     selectedClass (listItem (loadedObjects st ! j)) = (selectedObjectData st = Some j) \<and>
     (\<not> isDraggingTransform st \<longrightarrow>
        highlightShown (loadedObjects st ! j) = (selectedObjectData st = Some j) \<and>
        highlightActive (loadedObjects st ! j) = (selectedObjectData st = Some j))"

text \<open>
  The selection, when set, refers to an entry of the registry, and every entry is
  consistent with it. The selection is one reference or none, so at most one entry
  is the selected one.
\<close>

definition selectionInv :: "state \<Rightarrow> bool" where
  "selectionInv st \<longleftrightarrow>
     (case selectedObjectData st of None \<Rightarrow> True | Some s \<Rightarrow> s < length (loadedObjects st)) \<and>
     (\<forall>j \<in> set [0..<length (loadedObjects st)]. entryOk st j)"

text \<open>The test \<^verbatim>\<open>selectedObjectData && selectedObjectData.object === object\<close>.\<close>

definition alreadySelected :: "state \<Rightarrow> nat \<Rightarrow> bool" where
  "alreadySelected st ob =
     (case selectedObjectData st of
        None \<Rightarrow> False
      | Some s \<Rightarrow> uuid (object (loadedObjects st ! s)) = ob)"

subsection \<open>Rejected answers to the prompts\<close>

text \<open>
  A requested dimension is rejected when its prompt is cancelled or its text parses to
  not-a-number or to a number that is not positive (the negative infinity among
  them); an attempt is aborted when any of the three is rejected.
\<close>

definition rejectedNumber :: "jsnum \<Rightarrow> bool" where
  "rejectedNumber n =
     (case n of NaN \<Rightarrow> True | PosInfinity \<Rightarrow> False | NegInfinity \<Rightarrow> True | Num v \<Rightarrow> v \<le> 0)"

definition rejectedAnswer :: "(string \<Rightarrow> jsnum) \<Rightarrow> string option \<Rightarrow> bool" where
  "rejectedAnswer parseFloat a = (case a of None \<Rightarrow> True | Some s \<Rightarrow> rejectedNumber (parseFloat s))"

definition abortedAnswers :: "(string \<Rightarrow> jsnum) \<Rightarrow> dimensionAnswers \<Rightarrow> bool" where
  "abortedAnswers parseFloat ans \<longleftrightarrow>
     rejectedAnswer parseFloat (desiredWidthStr ans) \<or>
     rejectedAnswer parseFloat (desiredHeightStr ans) \<or>
     rejectedAnswer parseFloat (desiredDepthStr ans)"

subsection \<open>Rounding error\<close>

text \<open>
  A rounding function with relative error at most \<open>u\<close>; for double precision \<open>u\<close> is
  \<open>2 ^ -53\<close>.
\<close>

definition roundsWithin :: "(real \<Rightarrow> real) \<Rightarrow> real \<Rightarrow> bool" where
  "roundsWithin rnd u \<longleftrightarrow> 0 \<le> u \<and> u \<le> 1 / 2 \<and> (\<forall>x. \<bar>rnd x - x\<bar> \<le> u * \<bar>x\<bar>)"

text \<open>
  The exact distances between the faces that the six checks of \<open>snapChecks\<close> compare,
  in the order of the checks.
\<close>

definition exactGaps :: "box3 \<Rightarrow> box3 \<Rightarrow> real list" where
  "exactGaps sourceBox targetBox =
     [vx (bmin targetBox) - vx (bmax sourceBox), vx (bmax targetBox) - vx (bmin sourceBox),
      vz (bmin targetBox) - vz (bmax sourceBox), vz (bmax targetBox) - vz (bmin sourceBox),
      vy (bmin targetBox) - vy (bmax sourceBox), vy (bmax targetBox) - vy (bmin sourceBox)]"

subsection \<open>Example scenes\<close>

definition unitCube :: "vec3 list" where
  "unitCube =
     [\<lparr>vx = 0, vy = 0, vz = 0\<rparr>, \<lparr>vx = 1, vy = 0, vz = 0\<rparr>,
      \<lparr>vx = 0, vy = 1, vz = 0\<rparr>, \<lparr>vx = 1, vy = 1, vz = 0\<rparr>,
      \<lparr>vx = 0, vy = 0, vz = 1\<rparr>, \<lparr>vx = 1, vy = 0, vz = 1\<rparr>,
      \<lparr>vx = 0, vy = 1, vz = 1\<rparr>, \<lparr>vx = 1, vy = 1, vz = 1\<rparr>]"

text \<open>A unit cube at natural size whose minimum corner is at the given point.\<close>

definition cubeAt :: "nat \<Rightarrow> real \<Rightarrow> real \<Rightarrow> real \<Rightarrow> object3d" where
  "cubeAt u px py pz =
     \<lparr>uuid = u, position = \<lparr>vx = px, vy = py, vz = pz\<rparr>, rotation = identityRotation,
      scale = \<lparr>vx = 1, vy = 1, vz = 1\<rparr>, geometry = unitCube, nonFinite = False\<rparr>"

text \<open>The registry entry of an object as the import creates it.\<close>

definition entryOf :: "object3d \<Rightarrow> objectData" where
  "entryOf ob =
     \<lparr>object = ob, initialSize = naturalSize roundDouble (parsedObject (uuid ob) (geometry ob)),
      listItem = \<lparr>objectUuid = uuid ob, selectedClass = False, dimsLabel = None\<rparr>,
      boxHelper = Some \<lparr>color = BOX_HELPER_COLOR_INACTIVE, visible = False\<rparr>\<rparr>"

text \<open>The box with the given corners.\<close>

definition boxOf :: "real \<Rightarrow> real \<Rightarrow> real \<Rightarrow> real \<Rightarrow> real \<Rightarrow> real \<Rightarrow> box3" where
  "boxOf a b c a' b' c' = \<lparr>bmin = \<lparr>vx = a, vy = b, vz = c\<rparr>, bmax = \<lparr>vx = a', vy = b', vz = c'\<rparr>\<rparr>"


text \<open>The state when the page has loaded.\<close>

definition initialState :: state where
  "initialState =
     \<lparr>loadedObjects = [], selectedObjectData = None, isDraggingTransform = False,
      objectNameCounter = 0, orbitEnabled = True, attached = None, mode = Translate,
      showX = True, showY = True, showZ = True, sceneObjects = [], sceneHelpers = [],
      listRows = [], spinnerShown = False, fileInputValue = []\<rparr>"

text \<open>A state with the given registry and nothing selected.\<close>

definition sceneOf :: "objectData list \<Rightarrow> state" where
  "sceneOf ds = initialState\<lparr>loadedObjects := ds\<rparr>"

text \<open>What \<^verbatim>\<open>parseFloat\<close> gives on the texts used in the examples.\<close>

definition exampleParseFloat :: "string \<Rightarrow> jsnum" where
  "exampleParseFloat s =
     (if s = ''0'' then Num 0 else if s = ''1'' then Num 1 else if s = ''2'' then Num 2
      else if s = ''3'' then Num 3 else if s = ''Infinity'' then PosInfinity else NaN)"

definition answersOf :: "string \<Rightarrow> string \<Rightarrow> string \<Rightarrow> dimensionAnswers" where
  "answersOf w h d =
     \<lparr>desiredWidthStr = Some w, desiredHeightStr = Some h, desiredDepthStr = Some d\<rparr>"

definition importOf :: "nat \<Rightarrow> vec3 list \<Rightarrow> dimensionAnswers \<Rightarrow> fileEvent" where
  "importOf u vs ans =
     \<lparr>fileName = Some ''model.obj'', readResult = Loaded (Parsed vs), newUuid = u, answers = ans\<rparr>"

text \<open>Scenes made by importing one unit cube, and then a second one.\<close>

definition cubeScene :: state where
  "cubeScene = handleFileSelect roundDouble exampleParseFloat initialState
                 (importOf 1 unitCube (answersOf ''1'' ''1'' ''1''))"

definition twoCubeScene :: state where
  "twoCubeScene = handleFileSelect roundDouble exampleParseFloat cubeScene
                    (importOf 2 unitCube (answersOf ''1'' ''1'' ''1''))"

text \<open>
  Two unit cubes: one at x = 1.7 on the ground, and the moving one at x = 0.62,
  half a unit above the ground, 0.08 short of touching the first. The boxes are those
  of the two cubes and of the moving cube after one snap.
\<close>

definition gapTarget :: object3d where
  "gapTarget = cubeAt 1 (roundDouble (17 / 10)) 0 0"

definition gapMover :: object3d where
  "gapMover = cubeAt 2 (roundDouble (62 / 100)) (1 / 2) 0"

definition gapScene :: "objectData list" where
  "gapScene = [entryOf gapTarget, entryOf gapMover]"

definition gapTargetBox :: box3 where
  "gapTargetBox =
     boxOf (7656119366529843 / 4503599627370496) 0 0 (3039929748475085 / 1125899906842624) 1 1"

definition gapMoverBox :: box3 where
  "gapMoverBox =
     boxOf (5584463537939415 / 9007199254740992) (1 / 2) 0
       (1823957849085051 / 1125899906842624) (3 / 2) 1"

definition gapMovedBox :: box3 where
  "gapMovedBox =
     boxOf (6305039478318693 / 9007199254740992) (1 / 2) 0
       (3828059683264921 / 2251799813685248) (3 / 2) 1"






text \<open>
  A moving unit cube half a unit above the ground and a candidate that sits 0.05
  above the moving cube's top, shifted so that on X it is 0.1 away and outside the
  moving cube's footprint.
\<close>

definition sideMover :: object3d where
  "sideMover = cubeAt 2 0 (1 / 2) 0"

definition sideCandidate :: object3d where
  "sideCandidate = cubeAt 3 (roundDouble (- (9 / 10))) (roundDouble (155 / 100)) 0"

definition sideScene :: "objectData list" where
  "sideScene = [entryOf sideCandidate]"

definition sideMoverBox :: box3 where
  "sideMoverBox = boxOf 0 (1 / 2) 0 1 (3 / 2) 1"

definition sideCandidateBox :: box3 where
  "sideCandidateBox =
     boxOf (- (8106479329266893 / 9007199254740992)) (6980579422424269 / 4503599627370496) 0
       (900719925474099 / 9007199254740992) (2871044762448691 / 1125899906842624) 1"

section \<open>Rounding\<close>

lemma findExponent_bounds:
  "0 < x \<Longrightarrow> 2 powi (findExponent x e) \<le> x \<and> x < 2 powi (findExponent x e + 1)"
proof (induction x e rule: findExponent.induct)
  case (1 x e)
  show ?case
    using 1 by (subst (1 2) findExponent.simps) (auto simp: not_less not_le)
qed

lemma powi_two_mono: "a \<le> b \<Longrightarrow> (2::real) powi a \<le> 2 powi b"
  by (rule power_int_increasing) simp_all

lemma binade_unique:
  assumes "2 powi e \<le> (x::real)" "x < 2 powi (e + 1)" "2 powi f \<le> x" "x < 2 powi (f + 1)"
  shows "f = (e::int)"
proof (rule ccontr)
  assume ne: "f \<noteq> e"
  show False
  proof (cases "f < e")
    case True
    hence "(2::real) powi (f + 1) \<le> 2 powi e" by (intro powi_two_mono) simp
    with assms show False by simp
  next
    case False
    with ne have "e + 1 \<le> f" by simp
    hence "(2::real) powi (e + 1) \<le> 2 powi f" by (intro powi_two_mono)
    with assms show False by simp
  qed
qed

lemma roundDouble_at:
  assumes "2 powi e \<le> \<bar>x\<bar>" "\<bar>x\<bar> < 2 powi (e + 1)"
  shows "roundDouble x = of_int (roundHalfEven (x * 2 powi (52 - e))) * 2 powi (e - 52)"
proof -
  have pos: "0 < \<bar>x\<bar>" using assms(1) by (smt (verit) zero_less_power_int)
  have "findExponent \<bar>x\<bar> 0 = e"
    using findExponent_bounds [OF pos, of 0] assms by (intro binade_unique [of e "\<bar>x\<bar>"]) simp_all
  thus ?thesis using pos by (simp add: roundDouble_def Let_def)
qed

lemmas roundDouble_binades =
  roundDouble_at [of "-8"] roundDouble_at [of "-7"] roundDouble_at [of "-6"] roundDouble_at [of "-5"]
  roundDouble_at [of "-4"] roundDouble_at [of "-3"] roundDouble_at [of "-2"] roundDouble_at [of "-1"]
  roundDouble_at [of 0] roundDouble_at [of 1] roundDouble_at [of 2] roundDouble_at [of 3]

lemma roundHalfEven_error: "\<bar>of_int (roundHalfEven y) - y\<bar> \<le> 1 / 2"
proof -
  have "of_int \<lfloor>y\<rfloor> \<le> y" "y < of_int \<lfloor>y\<rfloor> + 1" by linarith+
  thus ?thesis by (auto simp: roundHalfEven_def Let_def)
qed

lemma roundDouble_error: "\<bar>roundDouble x - x\<bar> \<le> \<bar>x\<bar> / 2 ^ 53"
proof (cases "x = 0")
  case True
  thus ?thesis by (simp add: roundDouble_def)
next
  case False
  hence pos: "0 < \<bar>x\<bar>" by simp
  obtain e where e: "e = findExponent \<bar>x\<bar> 0" by simp
  obtain s :: real where s: "s = 2 powi (52 - e)" by simp
  have b: "2 powi e \<le> \<bar>x\<bar>" using findExponent_bounds [OF pos, of 0] by (simp add: e)
  have spos: "0 < s" by (simp add: s)
  have "(2::real) powi (52 - e) * 2 powi (e - 52) = 2 powi 0"
    by (subst power_int_add [symmetric]) simp_all
  hence inv: "2 powi (e - 52) = 1 / s" using spos by (simp add: s field_simps)
  have "roundDouble x =
      of_int (roundHalfEven (x * 2 powi (52 - e))) * 2 powi (e - 52)"
    using False by (simp add: roundDouble_def Let_def e)
  hence rd: "roundDouble x = of_int (roundHalfEven (x * s)) / s"
    by (simp only: inv s [symmetric]) simp
  have "(2::real) powi e * 2 powi (52 - e) = 2 powi 52"
    by (subst power_int_add [symmetric]) simp_all
  hence "(2::real) ^ 52 = 2 powi e * s" by (simp add: s)
  also have "\<dots> \<le> \<bar>x\<bar> * s" using b spos by (simp add: mult_right_mono)
  finally have big: "2 ^ 52 \<le> \<bar>x\<bar> * s" .
  have "roundDouble x - x = (of_int (roundHalfEven (x * s)) - x * s) / s"
    using spos by (simp add: rd field_simps)
  hence "\<bar>roundDouble x - x\<bar> = \<bar>of_int (roundHalfEven (x * s)) - x * s\<bar> / s"
    using spos by (simp add: abs_divide)
  also have "\<dots> \<le> (1 / 2) / s"
    using roundHalfEven_error [of "x * s"] spos by (intro divide_right_mono) simp_all
  also have "\<dots> \<le> (\<bar>x\<bar> * s / 2 ^ 53) / s"
    using big spos by (intro divide_right_mono) simp_all
  also have "\<dots> = \<bar>x\<bar> / 2 ^ 53" using spos by simp
  finally show ?thesis .
qed

lemma roundDouble_roundsWithin: "roundsWithin roundDouble (1 / 2 ^ 53)"
  using roundDouble_error by (simp add: roundsWithin_def)

lemma threshold_double: "SNAP_THRESHOLD roundDouble = 3602879701896397 / 18014398509481984"
  by (simp add: SNAP_THRESHOLD_def roundDouble_binades roundHalfEven_def Let_def)

lemma threshold_sq_double:
  "fmul roundDouble (SNAP_THRESHOLD roundDouble) (SNAP_THRESHOLD roundDouble) =
     1441151880758559 / 36028797018963968"
  by (simp add: threshold_double fmul_def roundDouble_binades roundHalfEven_def Let_def)

lemma threshold_sq_literal:
  "fmul roundDouble (3602879701896397 / 18014398509481984) (3602879701896397 / 18014398509481984) =
     1441151880758559 / 36028797018963968"
  by (simp add: fmul_def roundDouble_binades roundHalfEven_def Let_def)

lemmas threshold_eval = threshold_double threshold_sq_literal

lemma rw_bounds: "roundsWithin rnd u \<Longrightarrow> 0 \<le> u \<and> u \<le> 1 / 2"
  by (simp add: roundsWithin_def)

lemma rw_err: "roundsWithin rnd u \<Longrightarrow> \<bar>rnd x - x\<bar> \<le> u * \<bar>x\<bar>"
  by (simp add: roundsWithin_def)

lemma rw_zero: "roundsWithin rnd u \<Longrightarrow> rnd 0 = 0"
  using rw_err [of rnd u 0] by simp

lemma rw_half:
  assumes "roundsWithin rnd u"
  shows "\<bar>rnd x - x\<bar> \<le> \<bar>x\<bar> / 2"
proof -
  have "u * \<bar>x\<bar> \<le> (1 / 2) * \<bar>x\<bar>"
    using rw_bounds [OF assms] by (intro mult_right_mono) simp_all
  with rw_err [OF assms, of x] show ?thesis by simp
qed

lemma rw_abs: "roundsWithin rnd u \<Longrightarrow> \<bar>rnd x\<bar> \<le> 3 / 2 * \<bar>x\<bar>"
  using rw_half [of rnd u x] by linarith

lemma rw_abs_lower: "roundsWithin rnd u \<Longrightarrow> \<bar>x\<bar> \<le> 2 * \<bar>rnd x\<bar>"
  using rw_half [of rnd u x] by linarith

lemma rw_nonneg: "roundsWithin rnd u \<Longrightarrow> 0 \<le> x \<Longrightarrow> 0 \<le> rnd x"
  using rw_half [of rnd u x] by linarith

lemma rw_pos: "roundsWithin rnd u \<Longrightarrow> 0 < x \<Longrightarrow> 0 < rnd x"
  using rw_half [of rnd u x] by linarith

lemma rw_nonpos: "roundsWithin rnd u \<Longrightarrow> x \<le> 0 \<Longrightarrow> rnd x \<le> 0"
  using rw_half [of rnd u x] by linarith

lemma fadd_err:
  assumes "roundsWithin rnd u"
  shows "\<bar>fadd rnd a b - (a + b)\<bar> \<le> u * \<bar>a + b\<bar>"
  using rw_err [OF assms, of "a + b"] rw_bounds [OF assms] by (simp add: fadd_def)

lemma fsub_err:
  assumes "roundsWithin rnd u"
  shows "\<bar>fsub rnd a b - (a - b)\<bar> \<le> u * \<bar>a - b\<bar>"
  using rw_err [OF assms, of "a - b"] rw_bounds [OF assms] by (simp add: fsub_def)

lemma fmul_err:
  assumes "roundsWithin rnd u"
  shows "\<bar>fmul rnd a b - a * b\<bar> \<le> u * \<bar>a * b\<bar>"
  using rw_err [OF assms, of "a * b"] rw_bounds [OF assms] by (simp add: fmul_def)

lemma fdiv_err:
  assumes "roundsWithin rnd u"
  shows "\<bar>fdiv rnd a b - a / b\<bar> \<le> u * \<bar>a / b\<bar>"
  using rw_err [OF assms, of "a / b"] rw_bounds [OF assms] by (simp add: fdiv_def)

lemma fadd_abs: "roundsWithin rnd u \<Longrightarrow> \<bar>fadd rnd a b\<bar> \<le> 3 / 2 * \<bar>a + b\<bar>"
  using rw_abs [of rnd u "a + b"] by (simp add: fadd_def)

lemma fsub_abs: "roundsWithin rnd u \<Longrightarrow> \<bar>fsub rnd a b\<bar> \<le> 3 / 2 * \<bar>a - b\<bar>"
  using rw_abs [of rnd u "a - b"] by (simp add: fsub_def)

lemma fsub_abs_lower: "roundsWithin rnd u \<Longrightarrow> \<bar>a - b\<bar> \<le> 2 * \<bar>fsub rnd a b\<bar>"
  using rw_abs_lower [of rnd u "a - b"] by (simp add: fsub_def)

lemma fadd_nonneg: "roundsWithin rnd u \<Longrightarrow> 0 \<le> a + b \<Longrightarrow> 0 \<le> fadd rnd a b"
  using rw_nonneg [of rnd u "a + b"] by (simp add: fadd_def)

lemma fadd_cancel: "roundsWithin rnd u \<Longrightarrow> fadd rnd (- a) a = 0"
  using rw_zero [of rnd u] by (simp add: fadd_def)

lemma fsub_self: "roundsWithin rnd u \<Longrightarrow> fsub rnd a a = 0"
  using rw_zero [of rnd u] by (simp add: fsub_def)

lemma fsub_pos: "roundsWithin rnd u \<Longrightarrow> b < a \<Longrightarrow> 0 < fsub rnd a b"
  using rw_pos [of rnd u "a - b"] by (simp add: fsub_def)

lemma fdiv_pos: "roundsWithin rnd u \<Longrightarrow> 0 < a \<Longrightarrow> 0 < b \<Longrightarrow> 0 < fdiv rnd a b"
  using rw_pos [of rnd u "a / b"] by (simp add: fdiv_def)

lemma fmul_square_lower:
  assumes "roundsWithin rnd u"
  shows "a * a \<le> 2 * fmul rnd a a"
proof -
  have "0 \<le> a * a" by simp
  with rw_half [OF assms, of "a * a"] have "a * a \<le> 2 * rnd (a * a)" by linarith
  thus ?thesis by (simp add: fmul_def)
qed

lemma fmul_square_upper:
  assumes "roundsWithin rnd u"
  shows "fmul rnd a a \<le> 3 / 2 * (a * a)"
proof -
  have "0 \<le> a * a" by simp
  with rw_half [OF assms, of "a * a"] have "rnd (a * a) \<le> 3 / 2 * (a * a)" by linarith
  thus ?thesis by (simp add: fmul_def)
qed

lemma threshold_range:
  assumes "roundsWithin rnd u"
  shows "1 / 10 \<le> SNAP_THRESHOLD rnd \<and> SNAP_THRESHOLD rnd \<le> 3 / 10"
proof -
  have "\<bar>rnd (2 / 10) - 2 / 10\<bar> \<le> \<bar>2 / 10 :: real\<bar> / 2" by (rule rw_half [OF assms])
  hence "1 / 10 \<le> rnd (2 / 10) \<and> rnd (2 / 10) \<le> 3 / 10" by linarith
  thus ?thesis by (simp only: SNAP_THRESHOLD_def)
qed

lemma threshold_sq_upper:
  assumes "roundsWithin rnd u"
  shows "fmul rnd (SNAP_THRESHOLD rnd) (SNAP_THRESHOLD rnd) \<le> 27 / 200"
proof -
  let ?T = "SNAP_THRESHOLD rnd"
  from threshold_range [OF assms] have "?T * ?T \<le> (3 / 10) * (3 / 10)"
    by (intro mult_mono) simp_all
  with fmul_square_upper [OF assms, of ?T] show ?thesis by simp
qed

lemma within_threshold_small:
  assumes rw: "roundsWithin rnd u"
    and thr: "fmul rnd d d < fmul rnd (SNAP_THRESHOLD rnd) (SNAP_THRESHOLD rnd)"
  shows "\<bar>d\<bar> \<le> 1"
proof (rule ccontr)
  assume "\<not> \<bar>d\<bar> \<le> 1"
  hence "1 < \<bar>d\<bar>" by simp
  hence "1 * 1 < \<bar>d\<bar> * \<bar>d\<bar>" by (intro mult_strict_mono) simp_all
  hence "1 < d * d" by (simp add: abs_mult_self_eq)
  with fmul_square_lower [OF rw, of d] thr threshold_sq_upper [OF rw] show False by simp
qed

lemma square_compare:
  assumes rw: "roundsWithin rnd u" and le: "fmul rnd a a \<le> fmul rnd b b"
  shows "\<bar>a\<bar> \<le> 2 * \<bar>b\<bar>"
proof -
  have "a * a \<le> 2 * fmul rnd a a" by (rule fmul_square_lower [OF rw])
  also have "\<dots> \<le> 2 * fmul rnd b b" using le by simp
  also have "\<dots> \<le> 2 * (3 / 2 * (b * b))" using fmul_square_upper [OF rw, of b] by simp
  finally have le3: "a * a \<le> 3 * (b * b)" by simp
  show ?thesis
  proof (rule ccontr)
    assume "\<not> \<bar>a\<bar> \<le> 2 * \<bar>b\<bar>"
    hence lt: "2 * \<bar>b\<bar> < \<bar>a\<bar>" by simp
    have "(2 * \<bar>b\<bar>) * (2 * \<bar>b\<bar>) < \<bar>a\<bar> * \<bar>a\<bar>"
      using lt by (intro mult_strict_mono) simp_all
    hence "4 * (b * b) < a * a" by (simp add: abs_mult_self_eq algebra_simps)
    moreover have "0 \<le> b * b" by simp
    ultimately show False using le3 by linarith
  qed
qed

section \<open>Snapping\<close>

lemma snapCheck_eta: "\<lparr>axis = axis c, delta = delta c\<rparr> = (c::snapCheck)"
  by (cases c) simp

lemma checkLoop_scan:
  "checkLoop rnd sb tb cs st = scanChecks rnd (filter (\<lambda>c. overlaps (axis c) sb tb) cs) st"
proof (induction cs arbitrary: st)
  case Nil
  then show ?case by simp
next
  case (Cons c cs)
  obtain m b where st: "st = (m, b)" by (cases st)
  show ?case unfolding st using Cons.IH by (simp add: Let_def snapCheck_eta)
qed

lemma scanChecks_append:
  "scanChecks rnd (xs @ ys) st = scanChecks rnd ys (scanChecks rnd xs st)"
proof (induction xs arbitrary: st)
  case Nil
  then show ?case by simp
next
  case (Cons c cs)
  obtain m b where st: "st = (m, b)" by (cases st)
  show ?case unfolding st using Cons.IH by simp
qed

lemma targetLoop_scan:
  "targetLoop rnd src sb ts st = scanChecks rnd (eligibleChecks rnd src sb ts) st"
proof (induction ts arbitrary: st)
  case Nil
  then show ?case by simp
next
  case (Cons t ts)
  show ?case
    by (simp add: Cons.IH checkLoop_scan scanChecks_append gatedChecks_def split: option.splits)
qed

lemma scanChecks_lower:
  "scanChecks rnd cs (m, b) = (m', b') \<Longrightarrow>
     m' \<le> m \<and> (\<forall>c \<in> set cs. m' \<le> fmul rnd (delta c) (delta c))"
proof (induction cs arbitrary: m b)
  case Nil
  then show ?case by simp
next
  case (Cons c cs)
  show ?case
  proof (cases "fmul rnd (delta c) (delta c) < m")
    case True
    with Cons.prems have "scanChecks rnd cs (fmul rnd (delta c) (delta c), Some c) = (m', b')"
      by simp
    from Cons.IH [OF this] True show ?thesis by auto
  next
    case False
    with Cons.prems have "scanChecks rnd cs (m, b) = (m', b')" by simp
    from Cons.IH [OF this] False show ?thesis by auto
  qed
qed

lemma scanChecks_origin:
  "scanChecks rnd cs (m, b) = (m', b') \<Longrightarrow>
     (m' = m \<and> b' = b) \<or>
     (\<exists>c \<in> set cs. b' = Some c \<and> m' = fmul rnd (delta c) (delta c) \<and> m' < m)"
proof (induction cs arbitrary: m b)
  case Nil
  then show ?case by simp
next
  case (Cons c cs)
  show ?case
  proof (cases "fmul rnd (delta c) (delta c) < m")
    case True
    with Cons.prems have "scanChecks rnd cs (fmul rnd (delta c) (delta c), Some c) = (m', b')"
      by simp
    from Cons.IH [OF this] True show ?thesis by auto
  next
    case False
    with Cons.prems have "scanChecks rnd cs (m, b) = (m', b')" by simp
    from Cons.IH [OF this] show ?thesis by auto
  qed
qed

lemma eligibleChecks_mem:
  "c \<in> set (eligibleChecks rnd src sb ts) \<longleftrightarrow>
     (\<exists>t \<in> set ts. uuid (object t) \<noteq> uuid src \<and>
        (\<exists>tb. getObjectAABB rnd (object t) = Some tb \<and> c \<in> set (snapChecks rnd sb tb) \<and>
              overlaps (axis c) sb tb))"
  by (induction ts) (auto simp: gatedChecks_def split: option.splits)

lemma bestSnap_scan:
  "bestSnap rnd los src sb =
     groundCheck rnd sb (scanChecks rnd (eligibleChecks rnd src sb los)
       (fmul rnd (SNAP_THRESHOLD rnd) (SNAP_THRESHOLD rnd), None))"
  by (simp add: bestSnap_def targetLoop_scan)

text \<open>Every selected snap is the ground alignment or a gate-passing alignment within threshold.\<close>

lemma bestSnap_origin:
  assumes "bestSnap rnd los src sb = Some c"
  shows "(c = \<lparr>axis = AxisY, delta = - vy (bmin sb)\<rparr> \<and> \<bar>vy (bmin sb)\<bar> < SNAP_THRESHOLD rnd) \<or>
         (c \<in> set (eligibleChecks rnd src sb los) \<and>
          fmul rnd (delta c) (delta c) < fmul rnd (SNAP_THRESHOLD rnd) (SNAP_THRESHOLD rnd))"
proof -
  let ?T2 = "fmul rnd (SNAP_THRESHOLD rnd) (SNAP_THRESHOLD rnd)"
  obtain m b where sc: "scanChecks rnd (eligibleChecks rnd src sb los) (?T2, None) = (m, b)"
    by (cases "scanChecks rnd (eligibleChecks rnd src sb los) (?T2, None)")
  from assms have g: "groundCheck rnd sb (m, b) = Some c" by (simp add: bestSnap_scan sc)
  show ?thesis
  proof (cases "fmul rnd (vy (bmin sb)) (vy (bmin sb)) < m \<and> \<bar>vy (bmin sb)\<bar> < SNAP_THRESHOLD rnd")
    case True
    with g show ?thesis by (auto simp: groundCheck_def Let_def)
  next
    case False
    with g have b: "b = Some c" by (auto simp: groundCheck_def Let_def)
    from scanChecks_origin [OF sc] b show ?thesis by auto
  qed
qed

lemma apply_empty: "getObjectAABB rnd src = None \<Longrightarrow> applySnapAdjustment rnd los src = src"
  by (simp add: applySnapAdjustment_def)

lemma apply_none:
  "getObjectAABB rnd src = Some sb \<Longrightarrow> bestSnap rnd los src sb = None \<Longrightarrow>
   applySnapAdjustment rnd los src = src"
  by (simp add: applySnapAdjustment_def)

lemma apply_some:
  "getObjectAABB rnd src = Some sb \<Longrightarrow> bestSnap rnd los src sb = Some c \<Longrightarrow>
   applySnapAdjustment rnd los src = src\<lparr>position := addv rnd (position src) (snapVector c)\<rparr>"
  by (simp add: applySnapAdjustment_def)

lemma apply_cases:
  "applySnapAdjustment rnd los src = src \<or>
   (\<exists>sb c. getObjectAABB rnd src = Some sb \<and> bestSnap rnd los src sb = Some c \<and>
      applySnapAdjustment rnd los src =
        src\<lparr>position := addv rnd (position src) (snapVector c)\<rparr>)"
  by (auto simp: applySnapAdjustment_def split: option.splits)

lemma comp_snapVector:
  "getComponent ax (addv rnd p (snapVector c)) =
     (if ax = axis c then fadd rnd (getComponent ax p) (delta c) else getComponent ax p)"
  by (cases ax; cases "axis c") (simp_all add: addv_def snapVector_def fadd_def)


lemma length_snapChecks: "length (snapChecks rnd sb tb) = 6"
  by (simp add: snapChecks_def)

lemma snapChecks_nth_axis:
  "k < 6 \<Longrightarrow> axis (snapChecks rnd sb' tb ! k) = axis (snapChecks rnd sb tb ! k)"
  by (auto simp: snapChecks_def nth_Cons')

text \<open>
  Claim C4. If no gate-passing alignment with a candidate lies within the threshold
  and the ground plane is not within the threshold of the box minimum Y, then
  \<^verbatim>\<open>applySnapAdjustment\<close> leaves the object exactly as it was: position, rotation
  and scale. This holds whatever the rounding of the arithmetic.
\<close>

theorem no_snap_unchanged:
  assumes box: "getObjectAABB rnd src = Some sb"
    and far: "\<forall>c \<in> set (eligibleChecks rnd src sb los).
                \<not> fmul rnd (delta c) (delta c) <
                  fmul rnd (SNAP_THRESHOLD rnd) (SNAP_THRESHOLD rnd)"
    and ground: "\<not> \<bar>vy (bmin sb)\<bar> < SNAP_THRESHOLD rnd"
  shows "applySnapAdjustment rnd los src = src"
proof -
  have "bestSnap rnd los src sb = None"
  proof (cases "bestSnap rnd los src sb")
    case None
    then show ?thesis .
  next
    case (Some c)
    from bestSnap_origin [OF Some] far ground show ?thesis by blast
  qed
  then show ?thesis by (rule apply_none [OF box])
qed

lemma eligibleChecks_uuid:
  "uuid src' = uuid src \<Longrightarrow> eligibleChecks rnd src' sb ts = eligibleChecks rnd src sb ts"
  by (induction ts) (simp_all split: option.splits)

lemma eligibleChecks_registryAfter:
  "uuid ob = uuid src \<Longrightarrow>
   eligibleChecks rnd src sb (registryAfter ts ob) = eligibleChecks rnd src sb ts"
  by (induction ts) (simp_all add: registryAfter_def split: option.splits)

lemma eligibleChecks_append:
  "eligibleChecks rnd src sb (xs @ ys) =
   eligibleChecks rnd src sb xs @ eligibleChecks rnd src sb ys"
  by (induction xs) (simp_all split: option.splits)

lemma bestSnap_registryAfter:
  "uuid ob = uuid src \<Longrightarrow> bestSnap rnd (registryAfter ts ob) src sb = bestSnap rnd ts src sb"
  by (simp add: bestSnap_scan eligibleChecks_registryAfter)

lemma apply_registryAfter:
  "uuid ob = uuid src \<Longrightarrow>
   applySnapAdjustment rnd (registryAfter ts ob) src = applySnapAdjustment rnd ts src"
  by (simp add: applySnapAdjustment_def bestSnap_registryAfter split: option.splits)

lemma uuid_apply: "uuid (applySnapAdjustment rnd los src) = uuid src"
  using apply_cases [of rnd los src] by auto

lemma scan_raise:
  "scanChecks rnd ys (ma, ba) = (m, b) \<Longrightarrow> m < ma \<Longrightarrow> ma \<le> mb \<Longrightarrow>
   scanChecks rnd ys (mb, bb) = (m, b)"
proof (induction ys arbitrary: ma ba mb bb)
  case Nil
  then show ?case by simp
next
  case (Cons y ys)
  let ?d = "fmul rnd (delta y) (delta y)"
  show ?case
  proof (cases "?d < ma")
    case True
    with Cons.prems show ?thesis by simp
  next
    case False
    with Cons.prems have sc: "scanChecks rnd ys (ma, ba) = (m, b)" by simp
    show ?thesis
    proof (cases "?d < mb")
      case True
      from Cons.IH [OF sc Cons.prems(2), of "?d" "Some y"] False True
      show ?thesis by simp
    next
      case F2: False
      from Cons.IH [OF sc Cons.prems(2,3), of bb] F2 show ?thesis by simp
    qed
  qed
qed

lemma scan_skip:
  assumes "scanChecks rnd (e # ys) (m1, b1) = (m, Some c)" "e \<noteq> c"
  shows "scanChecks rnd ys (m1, b1) = (m, Some c)"
proof (cases "fmul rnd (delta e) (delta e) < m1")
  case True
  with assms(1) have sc: "scanChecks rnd ys (fmul rnd (delta e) (delta e), Some e) = (m, Some c)"
    by simp
  from scanChecks_origin [OF sc] assms(2) have "m < fmul rnd (delta e) (delta e)" by auto
  from scan_raise [OF sc this, of m1 b1] True show ?thesis by simp
next
  case False
  with assms(1) show ?thesis by simp
qed

lemma scan_skip_list:
  "scanChecks rnd (es @ ys) st = (m, Some c) \<Longrightarrow> c \<notin> set es \<Longrightarrow>
   scanChecks rnd ys st = (m, Some c)"
proof (induction es)
  case Nil
  then show ?case by simp
next
  case (Cons e es)
  obtain m1 b1 where st: "st = (m1, b1)" by (cases st)
  from Cons.prems have "scanChecks rnd (e # (es @ ys)) (m1, b1) = (m, Some c)" "e \<noteq> c"
    by (auto simp: st)
  then have "scanChecks rnd (es @ ys) (m1, b1) = (m, Some c)" by (rule scan_skip)
  with Cons show ?case by (simp add: st)
qed

lemma scan_subset_ge:
  assumes s1: "scanChecks rnd cs (m0, b0) = (m, b)"
    and s2: "scanChecks rnd cs' (m0, b0') = (m2, b2)"
    and sub: "set cs' \<subseteq> set cs"
  shows "m \<le> m2"
proof -
  from scanChecks_origin [OF s2] show ?thesis
  proof
    assume "m2 = m0 \<and> b2 = b0'"
    with scanChecks_lower [OF s1] show ?thesis by simp
  next
    assume "\<exists>c\<in>set cs'. b2 = Some c \<and> m2 = fmul rnd (delta c) (delta c) \<and> m2 < m0"
    with sub scanChecks_lower [OF s1] show ?thesis by auto
  qed
qed

lemma candidate_irrelevant:
  assumes boxB: "getObjectAABB rnd (object B) = Some tb"
    and bs: "bestSnap rnd (xs @ B # ys) A sb = Some c"
    and gate: "\<not> overlaps (axis c) sb tb"
  shows "bestSnap rnd (xs @ ys) A sb = Some c"
proof -
  define T2 where "T2 = fmul rnd (SNAP_THRESHOLD rnd) (SNAP_THRESHOLD rnd)"
  define E1 where "E1 = eligibleChecks rnd A sb xs"
  define EB where "EB = eligibleChecks rnd A sb [B]"
  define E2 where "E2 = eligibleChecks rnd A sb ys"
  have full: "eligibleChecks rnd A sb (xs @ B # ys) = E1 @ EB @ E2"
    using eligibleChecks_append [of rnd A sb xs "[B] @ ys"]
      eligibleChecks_append [of rnd A sb "[B]" ys]
    by (simp add: E1_def EB_def E2_def)
  have part: "eligibleChecks rnd A sb (xs @ ys) = E1 @ E2"
    by (simp add: eligibleChecks_append E1_def E2_def)
  have notin: "c \<notin> set EB" using gate boxB by (auto simp: EB_def gatedChecks_def)
  obtain m b where sc: "scanChecks rnd (E1 @ EB @ E2) (T2, None) = (m, b)"
    by (cases "scanChecks rnd (E1 @ EB @ E2) (T2, None)")
  obtain m2 b2 where sc2: "scanChecks rnd (E1 @ E2) (T2, None) = (m2, b2)"
    by (cases "scanChecks rnd (E1 @ E2) (T2, None)")
  from bs have g: "groundCheck rnd sb (m, b) = Some c"
    by (simp add: bestSnap_scan full T2_def [symmetric] sc)
  have "groundCheck rnd sb (m2, b2) = Some c"
  proof (cases "fmul rnd (vy (bmin sb)) (vy (bmin sb)) < m \<and> \<bar>vy (bmin sb)\<bar> < SNAP_THRESHOLD rnd")
    case True
    have "m \<le> m2" by (rule scan_subset_ge [OF sc sc2]) auto
    with True g show ?thesis by (auto simp: groundCheck_def Let_def)
  next
    case False
    with g have b: "b = Some c" by (auto simp: groundCheck_def Let_def)
    from sc b have "scanChecks rnd (EB @ E2) (scanChecks rnd E1 (T2, None)) = (m, Some c)"
      by (simp add: scanChecks_append)
    from scan_skip_list [OF this notin] sc2 have "m2 = m" "b2 = Some c"
      by (simp_all add: scanChecks_append)
    with g b show ?thesis by simp
  qed
  then show ?thesis by (simp add: bestSnap_scan part T2_def [symmetric] sc2)
qed

text \<open>
  Claim C7, amended. Let B be a candidate whose box fails the overlap gate for an axis:
  its footprint does not intersect the moving object's footprint on the other two
  axes. Whenever \<^verbatim>\<open>applySnapAdjustment\<close> snaps along that axis, the outcome is exactly
  what it is with B absent from the registry: the alignment with B along that axis is
  never the selected one, however small its distance (nothing is assumed about it).
  An alignment with B along another axis, whose own gate B passes, can be selected.
\<close>

theorem gate_failing_candidate_never_selected:
  assumes boxA: "getObjectAABB rnd A = Some sb"
    and boxB: "getObjectAABB rnd (object B) = Some tb"
    and bs: "bestSnap rnd (xs @ B # ys) A sb = Some c"
    and gate: "\<not> overlaps (axis c) sb tb"
  shows "applySnapAdjustment rnd (xs @ B # ys) A = applySnapAdjustment rnd (xs @ ys) A"
proof -
  have without: "bestSnap rnd (xs @ ys) A sb = Some c"
    by (rule candidate_irrelevant [OF boxB bs gate])
  have "applySnapAdjustment rnd (xs @ B # ys) A =
      A\<lparr>position := addv rnd (position A) (snapVector c)\<rparr>"
    by (rule apply_some [OF boxA bs])
  moreover have "applySnapAdjustment rnd (xs @ ys) A =
      A\<lparr>position := addv rnd (position A) (snapVector c)\<rparr>"
    by (rule apply_some [OF boxA without])
  ultimately show ?thesis by simp
qed



lemmas double_eval = roundDouble_binades roundHalfEven_def Let_def fadd_def fsub_def fmul_def fdiv_def

lemmas box_eval = getObjectAABB_def setFromPoints_def worldVertex_def localOffset_def
  addv_def mulv_def applyMat_def dotv_def identityRotation_def

lemma entry_simps: "object (entryOf ob) = ob"
  by (simp add: entryOf_def)

lemma cubeAt_uuid: "uuid (cubeAt u a b c) = u"
  by (simp add: cubeAt_def)

lemma box_5_3_0: "getObjectAABB roundDouble (cubeAt u 5 3 0) = Some (boxOf 5 3 0 6 4 1)"
  by (simp add: box_eval cubeAt_def unitCube_def boxOf_def double_eval)

lemma box_0_0_0: "getObjectAABB roundDouble (cubeAt u 0 0 0) = Some (boxOf 0 0 0 1 1 1)"
  by (simp add: box_eval cubeAt_def unitCube_def boxOf_def double_eval)

theorem no_snap_unchanged_witness:
  "applySnapAdjustment roundDouble [entryOf (cubeAt 1 0 0 0), entryOf (cubeAt 2 5 3 0)]
     (cubeAt 2 5 3 0) = cubeAt 2 5 3 0"
proof -
  let ?A = "cubeAt 2 5 3 0"
  let ?los = "[entryOf (cubeAt 1 0 0 0), entryOf ?A]"
  have h1: "getObjectAABB roundDouble ?A = Some (boxOf 5 3 0 6 4 1)" by (rule box_5_3_0)
  have el: "eligibleChecks roundDouble ?A (boxOf 5 3 0 6 4 1) ?los = []"
    by (simp add: entry_simps box_0_0_0 cubeAt_uuid gatedChecks_def snapChecks_def boxOf_def)
  have h2: "\<forall>c \<in> set (eligibleChecks roundDouble ?A (boxOf 5 3 0 6 4 1) ?los).
              \<not> fmul roundDouble (delta c) (delta c) <
                fmul roundDouble (SNAP_THRESHOLD roundDouble) (SNAP_THRESHOLD roundDouble)"
    unfolding el by simp
  have h3: "\<not> \<bar>vy (bmin (boxOf 5 3 0 6 4 1))\<bar> < SNAP_THRESHOLD roundDouble"
    by (simp add: boxOf_def threshold_double)
  show ?thesis by (rule no_snap_unchanged [OF h1 h2 h3])
qed


text \<open>A box is the componentwise minimum and maximum of the points it was built from.\<close>

lemma foldl_expand_some: "\<exists>b'. foldl expandByPoint (Some b) ps = Some b'"
  by (induction ps arbitrary: b) simp_all

lemma setFromPoints_empty_iff: "setFromPoints ps = None \<longleftrightarrow> ps = []"
proof (cases ps)
  case Nil
  then show ?thesis by (simp add: setFromPoints_def)
next
  case (Cons p qs)
  with foldl_expand_some [of "\<lparr>bmin = p, bmax = p\<rparr>" qs] show ?thesis
    by (auto simp: setFromPoints_def)
qed

lemma expand_bounds:
  "foldl expandByPoint (Some b0) ps = Some b \<Longrightarrow>
     getComponent a (bmin b) \<le> getComponent a (bmin b0) \<and>
     getComponent a (bmax b0) \<le> getComponent a (bmax b) \<and>
     (\<forall>p \<in> set ps. getComponent a (bmin b) \<le> getComponent a p \<and>
                     getComponent a p \<le> getComponent a (bmax b))"
proof (induction ps arbitrary: b0)
  case Nil
  then show ?case by simp
next
  case (Cons p ps)
  let ?b1 = "\<lparr>bmin = \<lparr>vx = min (vx (bmin b0)) (vx p), vy = min (vy (bmin b0)) (vy p),
                        vz = min (vz (bmin b0)) (vz p)\<rparr>,
               bmax = \<lparr>vx = max (vx (bmax b0)) (vx p), vy = max (vy (bmax b0)) (vy p),
                        vz = max (vz (bmax b0)) (vz p)\<rparr>\<rparr>"
  from Cons.prems have "foldl expandByPoint (Some ?b1) ps = Some b" by simp
  from Cons.IH [OF this] show ?case by (cases a) auto
qed

lemma expand_attained:
  "foldl expandByPoint (Some b0) ps = Some b \<Longrightarrow>
     (getComponent a (bmin b) = getComponent a (bmin b0) \<or>
      (\<exists>p \<in> set ps. getComponent a (bmin b) = getComponent a p)) \<and>
     (getComponent a (bmax b) = getComponent a (bmax b0) \<or>
      (\<exists>p \<in> set ps. getComponent a (bmax b) = getComponent a p))"
proof (induction ps arbitrary: b0)
  case Nil
  then show ?case by simp
next
  case (Cons p ps)
  let ?b1 = "\<lparr>bmin = \<lparr>vx = min (vx (bmin b0)) (vx p), vy = min (vy (bmin b0)) (vy p),
                        vz = min (vz (bmin b0)) (vz p)\<rparr>,
               bmax = \<lparr>vx = max (vx (bmax b0)) (vx p), vy = max (vy (bmax b0)) (vy p),
                        vz = max (vz (bmax b0)) (vz p)\<rparr>\<rparr>"
  from Cons.prems have "foldl expandByPoint (Some ?b1) ps = Some b" by simp
  from Cons.IH [OF this, of ] show ?case
    by (cases a) (auto simp: min_def max_def split: if_splits)
qed

lemma setFromPoints_bounds:
  assumes "setFromPoints ps = Some b" "p \<in> set ps"
  shows "getComponent a (bmin b) \<le> getComponent a p \<and> getComponent a p \<le> getComponent a (bmax b)"
proof (cases ps)
  case Nil
  with assms show ?thesis by simp
next
  case (Cons q qs)
  with assms(1) have f: "foldl expandByPoint (Some \<lparr>bmin = q, bmax = q\<rparr>) qs = Some b"
    by (simp add: setFromPoints_def)
  from expand_bounds [OF f, of a] assms(2) Cons show ?thesis by auto
qed

lemma setFromPoints_attained:
  assumes "setFromPoints ps = Some b"
  shows "(\<exists>p \<in> set ps. getComponent a (bmin b) = getComponent a p) \<and>
         (\<exists>p \<in> set ps. getComponent a (bmax b) = getComponent a p)"
proof (cases ps)
  case Nil
  with assms show ?thesis by (simp add: setFromPoints_def)
next
  case (Cons q qs)
  with assms(1) have f: "foldl expandByPoint (Some \<lparr>bmin = q, bmax = q\<rparr>) qs = Some b"
    by (simp add: setFromPoints_def)
  from expand_attained [OF f, of a] Cons show ?thesis by auto
qed

text \<open>The bounding box of an object, one axis at a time.\<close>

lemma comp_worldVertex:
  "getComponent a (worldVertex rnd ob v) =
     fadd rnd (getComponent a (position ob)) (getComponent a (localOffset rnd ob v))"
  by (cases a) (simp_all add: worldVertex_def addv_def)

lemma box_finite: "getObjectAABB rnd ob = Some b \<Longrightarrow> \<not> nonFinite ob \<and> geometry ob \<noteq> []"
  by (auto simp: getObjectAABB_def setFromPoints_def split: if_splits)

lemma box_exists:
  "\<not> nonFinite ob \<Longrightarrow> geometry ob \<noteq> [] \<Longrightarrow> \<exists>b. getObjectAABB rnd ob = Some b"
  using setFromPoints_empty_iff [of "map (worldVertex rnd ob) (geometry ob)"]
  by (auto simp: getObjectAABB_def)

lemma box_bounds:
  assumes "getObjectAABB rnd ob = Some b" "v \<in> set (geometry ob)"
  shows "getComponent a (bmin b) \<le>
           fadd rnd (getComponent a (position ob)) (getComponent a (localOffset rnd ob v)) \<and>
         fadd rnd (getComponent a (position ob)) (getComponent a (localOffset rnd ob v)) \<le>
           getComponent a (bmax b)"
proof -
  from assms(1) have s: "setFromPoints (map (worldVertex rnd ob) (geometry ob)) = Some b"
    by (simp add: getObjectAABB_def split: if_splits)
  from assms(2) have "worldVertex rnd ob v \<in> set (map (worldVertex rnd ob) (geometry ob))"
    by simp
  from setFromPoints_bounds [OF s this, of a] show ?thesis by (simp add: comp_worldVertex)
qed

lemma box_attained:
  assumes "getObjectAABB rnd ob = Some b"
  shows "(\<exists>v \<in> set (geometry ob). getComponent a (bmin b) =
            fadd rnd (getComponent a (position ob)) (getComponent a (localOffset rnd ob v))) \<and>
         (\<exists>v \<in> set (geometry ob). getComponent a (bmax b) =
            fadd rnd (getComponent a (position ob)) (getComponent a (localOffset rnd ob v)))"
proof -
  from assms(1) have s: "setFromPoints (map (worldVertex rnd ob) (geometry ob)) = Some b"
    by (simp add: getObjectAABB_def split: if_splits)
  from setFromPoints_attained [OF s, of a] show ?thesis by (auto simp: comp_worldVertex)
qed

text \<open>
  Two objects with the same vertices whose world coordinates on one axis differ by
  \<open>d\<close> up to \<open>e\<close>: the faces of their boxes on that axis differ by \<open>d\<close> up to \<open>e\<close>.
\<close>

lemma box_perturbed:
  assumes b: "getObjectAABB rnd ob = Some b" and b': "getObjectAABB rnd ob' = Some b'"
    and geo: "geometry ob' = geometry ob"
    and close: "\<forall>v \<in> set (geometry ob).
       \<bar>fadd rnd (getComponent a (position ob')) (getComponent a (localOffset rnd ob' v)) -
        (fadd rnd (getComponent a (position ob)) (getComponent a (localOffset rnd ob v)) + d)\<bar> \<le> e"
  shows "\<bar>getComponent a (bmin b') - (getComponent a (bmin b) + d)\<bar> \<le> e \<and>
         \<bar>getComponent a (bmax b') - (getComponent a (bmax b) + d)\<bar> \<le> e"
proof -
  let ?f = "\<lambda>v. fadd rnd (getComponent a (position ob)) (getComponent a (localOffset rnd ob v))"
  let ?f' = "\<lambda>v. fadd rnd (getComponent a (position ob')) (getComponent a (localOffset rnd ob' v))"
  from box_attained [OF b, of a] obtain v0 v1 where
    v0: "v0 \<in> set (geometry ob)" "getComponent a (bmin b) = ?f v0" and
    v1: "v1 \<in> set (geometry ob)" "getComponent a (bmax b) = ?f v1" by blast
  from box_attained [OF b', of a] geo obtain w0 w1 where
    w0: "w0 \<in> set (geometry ob)" "getComponent a (bmin b') = ?f' w0" and
    w1: "w1 \<in> set (geometry ob)" "getComponent a (bmax b') = ?f' w1" by auto
  have lo: "getComponent a (bmin b) \<le> ?f w0" "?f w1 \<le> getComponent a (bmax b)"
    using box_bounds [OF b w0(1), of a] box_bounds [OF b w1(1), of a] by simp_all
  have lo': "getComponent a (bmin b') \<le> ?f' v0" "?f' v1 \<le> getComponent a (bmax b')"
    using box_bounds [OF b', of v0 a] box_bounds [OF b', of v1 a] v0(1) v1(1) geo by simp_all
  from close v0(1) have c0: "\<bar>?f' v0 - (?f v0 + d)\<bar> \<le> e" by blast
  from close v1(1) have c1: "\<bar>?f' v1 - (?f v1 + d)\<bar> \<le> e" by blast
  from close w0(1) have d0: "\<bar>?f' w0 - (?f w0 + d)\<bar> \<le> e" by blast
  from close w1(1) have d1: "\<bar>?f' w1 - (?f w1 + d)\<bar> \<le> e" by blast
  have "\<bar>getComponent a (bmin b') - (getComponent a (bmin b) + d)\<bar> \<le> e"
    using lo(1) lo'(1) c0 d0 v0(2) w0(2) by linarith
  moreover have "\<bar>getComponent a (bmax b') - (getComponent a (bmax b) + d)\<bar> \<le> e"
    using lo(2) lo'(2) c1 d1 v1(2) w1(2) by linarith
  ultimately show ?thesis ..
qed

text \<open>The box on an axis depends on the position on that axis only.\<close>

lemma box_axis_same:
  assumes b: "getObjectAABB rnd ob = Some b" and b': "getObjectAABB rnd ob' = Some b'"
    and geo: "geometry ob' = geometry ob"
    and same: "\<forall>v \<in> set (geometry ob).
       fadd rnd (getComponent a (position ob')) (getComponent a (localOffset rnd ob' v)) =
       fadd rnd (getComponent a (position ob)) (getComponent a (localOffset rnd ob v))"
  shows "getComponent a (bmin b') = getComponent a (bmin b) \<and>
         getComponent a (bmax b') = getComponent a (bmax b)"
proof -
  have "\<forall>v \<in> set (geometry ob).
       \<bar>fadd rnd (getComponent a (position ob')) (getComponent a (localOffset rnd ob' v)) -
        (fadd rnd (getComponent a (position ob)) (getComponent a (localOffset rnd ob v)) + 0)\<bar> \<le> 0"
    using same by simp
  from box_perturbed [OF b b' geo this] show ?thesis by simp
qed

lemma localOffset_position [simp]:
  "localOffset rnd (ob\<lparr>position := p\<rparr>) v = localOffset rnd ob v"
  by (simp add: localOffset_def)

lemma scaled_bound: "0 \<le> u \<Longrightarrow> x \<le> u * y \<Longrightarrow> y \<le> z \<Longrightarrow> x \<le> u * (z::real)"
  by (meson mult_left_mono order_trans)

text \<open>
  The box of an object after a snap of at most 1 along one axis: on that axis both
  faces have moved by the snap up to rounding, on the other axes they have not moved.
\<close>

lemma moved_box:
  assumes rw: "roundsWithin rnd u"
    and box: "getObjectAABB rnd A = Some sb"
    and small: "\<bar>delta c\<bar> \<le> 1"
    and P: "\<bar>getComponent (axis c) (position A)\<bar> \<le> P"
    and Q: "\<forall>v \<in> set (geometry A). \<bar>getComponent (axis c) (localOffset rnd A v)\<bar> \<le> Q"
  shows "\<exists>sb'. getObjectAABB rnd (A\<lparr>position := addv rnd (position A) (snapVector c)\<rparr>) = Some sb' \<and>
     \<bar>getComponent (axis c) (bmin sb') - (getComponent (axis c) (bmin sb) + delta c)\<bar>
        \<le> u * (4 * P + 2 * Q + 3) \<and>
     \<bar>getComponent (axis c) (bmax sb') - (getComponent (axis c) (bmax sb) + delta c)\<bar>
        \<le> u * (4 * P + 2 * Q + 3) \<and>
     (\<forall>ax. ax \<noteq> axis c \<longrightarrow>
        getComponent ax (bmin sb') = getComponent ax (bmin sb) \<and>
        getComponent ax (bmax sb') = getComponent ax (bmax sb))"
proof -
  let ?A' = "A\<lparr>position := addv rnd (position A) (snapVector c)\<rparr>"
  let ?a = "axis c"
  let ?p = "getComponent ?a (position A)"
  let ?p' = "fadd rnd ?p (delta c)"
  from rw_bounds [OF rw] have u0: "0 \<le> u" by simp
  from box_finite [OF box] have "\<not> nonFinite ?A'" "geometry ?A' \<noteq> []" by simp_all
  from box_exists [OF this] obtain sb' where box': "getObjectAABB rnd ?A' = Some sb'" by blast
  have geo: "geometry ?A' = geometry A" by simp
  have pos': "getComponent ?a (position ?A') = ?p'" by (simp add: comp_snapVector)
  have pd: "\<bar>?p + delta c\<bar> \<le> P + 1" using P small by argo
  have p'b: "\<bar>?p'\<bar> \<le> 2 * P + 2"
    using fadd_abs [OF rw, of ?p "delta c"] pd by argo
  have close: "\<forall>v \<in> set (geometry A).
       \<bar>fadd rnd (getComponent ?a (position ?A')) (getComponent ?a (localOffset rnd ?A' v)) -
        (fadd rnd ?p (getComponent ?a (localOffset rnd A v)) + delta c)\<bar>
       \<le> u * (4 * P + 2 * Q + 3)"
  proof
    fix v assume v: "v \<in> set (geometry A)"
    let ?q = "getComponent ?a (localOffset rnd A v)"
    from Q v have q: "\<bar>?q\<bar> \<le> Q" by blast
    have e1: "\<bar>fadd rnd ?p' ?q - (?p' + ?q)\<bar> \<le> u * (2 * P + 2 + Q)"
      by (rule scaled_bound [OF u0 fadd_err [OF rw]]) (use p'b q in argo)
    have e2: "\<bar>?p' - (?p + delta c)\<bar> \<le> u * (P + 1)"
      by (rule scaled_bound [OF u0 fadd_err [OF rw] pd])
    have e3: "\<bar>fadd rnd ?p ?q - (?p + ?q)\<bar> \<le> u * (P + Q)"
      by (rule scaled_bound [OF u0 fadd_err [OF rw]]) (use P q in argo)
    have "u * (4 * P + 2 * Q + 3) =
          u * (2 * P + 2 + Q) + u * (P + 1) + u * (P + Q)"
      by (simp add: algebra_simps)
    with e1 e2 e3 have "\<bar>fadd rnd ?p' ?q - (fadd rnd ?p ?q + delta c)\<bar>
        \<le> u * (4 * P + 2 * Q + 3)" by argo
    thus "\<bar>fadd rnd (getComponent ?a (position ?A')) (getComponent ?a (localOffset rnd ?A' v)) -
        (fadd rnd ?p ?q + delta c)\<bar> \<le> u * (4 * P + 2 * Q + 3)"
      by (simp only: pos' localOffset_position)
  qed
  have other: "getComponent ax (bmin sb') = getComponent ax (bmin sb) \<and>
               getComponent ax (bmax sb') = getComponent ax (bmax sb)" if "ax \<noteq> ?a" for ax
  proof (rule box_axis_same [OF box box' geo])
    show "\<forall>v\<in>set (geometry A).
       fadd rnd (getComponent ax (position ?A')) (getComponent ax (localOffset rnd ?A' v)) =
       fadd rnd (getComponent ax (position A)) (getComponent ax (localOffset rnd A v))"
      using that by (simp add: comp_snapVector)
  qed
  from box_perturbed [OF box box' geo close] other box' show ?thesis by blast
qed

lemma moved_fields:
  "rotation (A\<lparr>position := p\<rparr>) = rotation A \<and> scale (A\<lparr>position := p\<rparr>) = scale A \<and>
   geometry (A\<lparr>position := p\<rparr>) = geometry A \<and> uuid (A\<lparr>position := p\<rparr>) = uuid A \<and>
   nonFinite (A\<lparr>position := p\<rparr>) = nonFinite A"
  by simp


lemma six_cases: "k < 6 \<Longrightarrow> k = 0 \<or> k = 1 \<or> k = 2 \<or> k = 3 \<or> k = 4 \<or> k = (5::nat)"
  by arith

text \<open>A computed delta is the exact distance of its two faces, rounded.\<close>

lemma delta_exact:
  assumes rw: "roundsWithin rnd u" and k: "k < 6"
  shows "\<bar>delta (snapChecks rnd sb tb ! k) - exactGaps sb tb ! k\<bar> \<le> u * \<bar>exactGaps sb tb ! k\<bar> \<and>
         \<bar>exactGaps sb tb ! k\<bar> \<le> 2 * \<bar>delta (snapChecks rnd sb tb ! k)\<bar>"
  using six_cases [OF k] fsub_err [OF rw] fsub_abs_lower [OF rw]
  by (elim disjE) (simp_all add: snapChecks_def exactGaps_def)

text \<open>The distance of the two faces of a check after both faces of the box have moved.\<close>

lemma gap_after:
  assumes k: "k < 6"
    and lo: "\<bar>getComponent (axis (snapChecks rnd sb tb ! k)) (bmin sb') -
              (getComponent (axis (snapChecks rnd sb tb ! k)) (bmin sb) + d)\<bar> \<le> e"
    and hi: "\<bar>getComponent (axis (snapChecks rnd sb tb ! k)) (bmax sb') -
              (getComponent (axis (snapChecks rnd sb tb ! k)) (bmax sb) + d)\<bar> \<le> e"
    and d: "\<bar>d - exactGaps sb tb ! k\<bar> \<le> e2"
  shows "\<bar>exactGaps sb' tb ! k\<bar> \<le> e + e2"
  using six_cases [OF k] lo hi d
  by (elim disjE) (simp_all add: snapChecks_def exactGaps_def)



lemmas scene_eval = cubeAt_def unitCube_def boxOf_def entryOf_def

lemma gapTarget_box: "getObjectAABB roundDouble gapTarget = Some gapTargetBox"
  by (simp add: gapTarget_def gapTargetBox_def box_eval scene_eval double_eval)

lemma gapMover_box: "getObjectAABB roundDouble gapMover = Some gapMoverBox"
  by (simp add: gapMover_def gapMoverBox_def box_eval scene_eval double_eval)

lemma gap_uuids: "uuid gapTarget = 1" "uuid gapMover = 2"
  by (simp_all add: gapTarget_def gapMover_def cubeAt_def)

lemma gap_checks:
  "snapChecks roundDouble gapMoverBox gapTargetBox =
     [\<lparr>axis = AxisX, delta = 360287970189639 / 4503599627370496\<rparr>,
      \<lparr>axis = AxisX, delta = 1170935903116329 / 562949953421312\<rparr>,
      \<lparr>axis = AxisZ, delta = - 1\<rparr>, \<lparr>axis = AxisZ, delta = 1\<rparr>,
      \<lparr>axis = AxisY, delta = - (3 / 2)\<rparr>, \<lparr>axis = AxisY, delta = 1 / 2\<rparr>]"
  by (simp add: snapChecks_def gapMoverBox_def gapTargetBox_def boxOf_def double_eval)

lemma gap_gate:
  "overlaps AxisX gapMoverBox gapTargetBox"
  "\<not> overlaps AxisY gapMoverBox gapTargetBox"
  "\<not> overlaps AxisZ gapMoverBox gapTargetBox"
  by (simp_all add: gapMoverBox_def gapTargetBox_def boxOf_def)

lemma gap_eligible:
  "eligibleChecks roundDouble gapMover gapMoverBox gapScene =
     [\<lparr>axis = AxisX, delta = 360287970189639 / 4503599627370496\<rparr>,
      \<lparr>axis = AxisX, delta = 1170935903116329 / 562949953421312\<rparr>]"
  by (simp add: gapScene_def entry_simps gap_uuids gapTarget_box gatedChecks_def gap_checks
      gap_gate del: overlaps.simps)

lemma gap_squares:
  "fmul roundDouble (360287970189639 / 4503599627370496) (360287970189639 / 4503599627370496) =
     7378697629483793 / 1152921504606846976"
  "fmul roundDouble (1170935903116329 / 562949953421312) (1170935903116329 / 562949953421312) =
     4871093356963929 / 1125899906842624"
  by (simp_all add: double_eval)

lemma gap_best:
  "bestSnap roundDouble gapScene gapMover gapMoverBox =
     Some \<lparr>axis = AxisX, delta = 360287970189639 / 4503599627370496\<rparr>"
  by (simp add: bestSnap_scan gap_eligible gap_squares groundCheck_def Let_def
      threshold_eval) (simp add: gapMoverBox_def boxOf_def double_eval)

lemma gap_moved:
  "applySnapAdjustment roundDouble gapScene gapMover =
     cubeAt 2 (6305039478318693 / 9007199254740992) (1 / 2) 0"
  by (simp add: apply_some [OF gapMover_box gap_best])
     (simp add: gapMover_def cubeAt_def addv_def snapVector_def double_eval)

lemma gap_moved_box:
  "getObjectAABB roundDouble (cubeAt 2 (6305039478318693 / 9007199254740992) (1 / 2) 0) =
     Some gapMovedBox"
  by (simp add: gapMovedBox_def box_eval scene_eval double_eval)










lemma moved_checks:
  "snapChecks roundDouble gapMovedBox gapTargetBox =
     [\<lparr>axis = AxisX, delta = 1 / 4503599627370496\<rparr>,
      \<lparr>axis = AxisX, delta = 4503599627370497 / 2251799813685248\<rparr>,
      \<lparr>axis = AxisZ, delta = - 1\<rparr>, \<lparr>axis = AxisZ, delta = 1\<rparr>,
      \<lparr>axis = AxisY, delta = - (3 / 2)\<rparr>, \<lparr>axis = AxisY, delta = 1 / 2\<rparr>]"
  by (simp add: snapChecks_def gapMovedBox_def gapTargetBox_def boxOf_def double_eval
      roundDouble_at [of "-52"])

lemma moved_gate:
  "overlaps AxisX gapMovedBox gapTargetBox"
  "\<not> overlaps AxisY gapMovedBox gapTargetBox"
  "\<not> overlaps AxisZ gapMovedBox gapTargetBox"
  by (simp_all add: gapMovedBox_def gapTargetBox_def boxOf_def)

lemma moved_eligible:
  "eligibleChecks roundDouble (cubeAt 2 (6305039478318693 / 9007199254740992) (1 / 2) 0)
     gapMovedBox gapScene =
     [\<lparr>axis = AxisX, delta = 1 / 4503599627370496\<rparr>,
      \<lparr>axis = AxisX, delta = 4503599627370497 / 2251799813685248\<rparr>]"
  by (simp add: gapScene_def entry_simps gap_uuids cubeAt_uuid gapTarget_box gatedChecks_def
      moved_checks moved_gate del: overlaps.simps)

lemma moved_squares:
  "fmul roundDouble (1 / 4503599627370496) (1 / 4503599627370496) =
     1 / 20282409603651670423947251286016"
  "fmul roundDouble (4503599627370497 / 2251799813685248) (4503599627370497 / 2251799813685248) =
     2251799813685249 / 562949953421312"
  by (simp_all add: double_eval roundDouble_at [of "-104"])

lemma moved_best:
  "bestSnap roundDouble gapScene (cubeAt 2 (6305039478318693 / 9007199254740992) (1 / 2) 0)
     gapMovedBox = Some \<lparr>axis = AxisX, delta = 1 / 4503599627370496\<rparr>"
  by (simp add: bestSnap_scan moved_eligible moved_squares groundCheck_def Let_def
      threshold_eval) (simp add: gapMovedBox_def boxOf_def double_eval)

lemma moved_again:
  "applySnapAdjustment roundDouble gapScene
     (cubeAt 2 (6305039478318693 / 9007199254740992) (1 / 2) 0) =
   cubeAt 2 (6305039478318695 / 9007199254740992) (1 / 2) 0"
  by (simp add: apply_some [OF gap_moved_box moved_best])
     (simp add: cubeAt_def addv_def snapVector_def double_eval)

text \<open>
  Claim C6 as stated fails in double precision. In the scene of the two cubes at
  x = 1.7 and x = 0.62, the first call moves the cube to x = 6305039478318693 / 2^53
  and the second call, with no move in between, to x = 6305039478318695 / 2^53.
\<close>

theorem snap_twice_counterexample:
  "vx (position (applySnapAdjustment roundDouble gapScene gapMover)) =
     6305039478318693 / 9007199254740992 \<and>
   vx (position (applySnapAdjustment roundDouble
         (registryAfter gapScene (applySnapAdjustment roundDouble gapScene gapMover))
         (applySnapAdjustment roundDouble gapScene gapMover))) =
     6305039478318695 / 9007199254740992"
  by (simp add: apply_registryAfter gap_moved moved_again) (simp add: cubeAt_def)

lemma sideMover_box: "getObjectAABB roundDouble sideMover = Some sideMoverBox"
  by (simp add: sideMover_def sideMoverBox_def box_eval scene_eval double_eval)

lemma sideCandidate_box: "getObjectAABB roundDouble sideCandidate = Some sideCandidateBox"
  by (simp add: sideCandidate_def sideCandidateBox_def box_eval scene_eval double_eval)

lemma side_checks:
  "snapChecks roundDouble sideMoverBox sideCandidateBox =
     [\<lparr>axis = AxisX, delta = - (4278419646001971 / 2251799813685248)\<rparr>,
      \<lparr>axis = AxisX, delta = 900719925474099 / 9007199254740992\<rparr>,
      \<lparr>axis = AxisZ, delta = - 1\<rparr>, \<lparr>axis = AxisZ, delta = 1\<rparr>,
      \<lparr>axis = AxisY, delta = 225179981368525 / 4503599627370496\<rparr>,
      \<lparr>axis = AxisY, delta = 2308094809027379 / 1125899906842624\<rparr>]"
  by (simp add: snapChecks_def sideMoverBox_def sideCandidateBox_def boxOf_def double_eval)

lemma side_gate:
  "\<not> overlaps AxisX sideMoverBox sideCandidateBox"
  "overlaps AxisY sideMoverBox sideCandidateBox"
  "\<not> overlaps AxisZ sideMoverBox sideCandidateBox"
  by (simp_all add: sideMoverBox_def sideCandidateBox_def boxOf_def)

lemma side_uuids: "uuid sideMover = 2" "uuid sideCandidate = 3"
  by (simp_all add: sideMover_def sideCandidate_def cubeAt_def)

lemma side_eligible:
  "eligibleChecks roundDouble sideMover sideMoverBox sideScene =
     [\<lparr>axis = AxisY, delta = 225179981368525 / 4503599627370496\<rparr>,
      \<lparr>axis = AxisY, delta = 2308094809027379 / 1125899906842624\<rparr>]"
  by (simp add: sideScene_def entry_simps side_uuids sideCandidate_box gatedChecks_def
      side_checks side_gate del: overlaps.simps)

lemma side_squares:
  "fmul roundDouble (900719925474099 / 9007199254740992) (900719925474099 / 9007199254740992) =
     720575940379279 / 72057594037927936"
  "fmul roundDouble (225179981368525 / 4503599627370496) (225179981368525 / 4503599627370496) =
     5764607523034245 / 2305843009213693952"
  "fmul roundDouble (2308094809027379 / 1125899906842624) (2308094809027379 / 1125899906842624) =
     4731594358506127 / 1125899906842624"
  by (simp_all add: double_eval roundDouble_at [of "-9"])

lemma side_best:
  "bestSnap roundDouble sideScene sideMover sideMoverBox =
     Some \<lparr>axis = AxisY, delta = 225179981368525 / 4503599627370496\<rparr>"
  by (simp add: bestSnap_scan side_eligible side_squares groundCheck_def Let_def
      threshold_eval) (simp add: sideMoverBox_def boxOf_def double_eval)

text \<open>
  Claim C7 as stated fails. The candidate is within the threshold of the moving cube
  on X (0.1 away) and fails the gate for X, its footprint on Y and Z not overlapping
  the moving cube's. Yet the search selects an alignment with that same candidate,
  along Y, and the moving cube is moved up to touch it.
\<close>

theorem gate_failing_candidate_counterexample:
  "getObjectAABB roundDouble sideMover = Some sideMoverBox \<and>
   getObjectAABB roundDouble sideCandidate = Some sideCandidateBox \<and>
   snapChecks roundDouble sideMoverBox sideCandidateBox ! 1 =
     \<lparr>axis = AxisX, delta = 900719925474099 / 9007199254740992\<rparr> \<and>
   fmul roundDouble (900719925474099 / 9007199254740992) (900719925474099 / 9007199254740992) <
     fmul roundDouble (SNAP_THRESHOLD roundDouble) (SNAP_THRESHOLD roundDouble) \<and>
   \<not> overlaps AxisX sideMoverBox sideCandidateBox \<and>
   bestSnap roundDouble sideScene sideMover sideMoverBox =
     Some (snapChecks roundDouble sideMoverBox sideCandidateBox ! 4) \<and>
   position (applySnapAdjustment roundDouble sideScene sideMover) =
     \<lparr>vx = 0, vy = 2476979795053773 / 4503599627370496, vz = 0\<rparr>"
  by (simp add: sideMover_box sideCandidate_box side_checks side_squares threshold_eval
        side_gate side_best apply_some [OF sideMover_box side_best] del: overlaps.simps)
     (simp add: sideMover_def cubeAt_def addv_def snapVector_def double_eval)

lemma box_near: "getObjectAABB roundDouble (cubeAt u (9 / 8) (1 / 2) 0) =
    Some (boxOf (9 / 8) (1 / 2) 0 (17 / 8) (3 / 2) 1)"
  by (simp add: box_eval scene_eval double_eval)

lemma box_far: "getObjectAABB roundDouble (cubeAt u (9 / 4) (1 / 2) 5) =
    Some (boxOf (9 / 4) (1 / 2) 5 (13 / 4) (3 / 2) 6)"
  by (simp add: box_eval scene_eval double_eval)

theorem gate_failing_candidate_never_selected_witness:
  "applySnapAdjustment roundDouble
     [entryOf (cubeAt 3 (9 / 4) (1 / 2) 5), entryOf (cubeAt 1 0 0 0)] (cubeAt 2 (9 / 8) (1 / 2) 0) =
   applySnapAdjustment roundDouble [entryOf (cubeAt 1 0 0 0)] (cubeAt 2 (9 / 8) (1 / 2) 0)"
proof -
  let ?A = "cubeAt 2 (9 / 8) (1 / 2) 0" and ?B = "entryOf (cubeAt 3 (9 / 4) (1 / 2) 5)"
  let ?ys = "[entryOf (cubeAt 1 0 0 0)]"
  let ?sb = "boxOf (9 / 8) (1 / 2) 0 (17 / 8) (3 / 2) 1"
  let ?tb = "boxOf (9 / 4) (1 / 2) 5 (13 / 4) (3 / 2) 6"
  let ?c = "\<lparr>axis = AxisX, delta = - (1 / 8)\<rparr>"
  have h1: "getObjectAABB roundDouble ?A = Some ?sb" by (rule box_near)
  have h2: "getObjectAABB roundDouble (object ?B) = Some ?tb"
    by (simp add: entry_simps box_far)
  have el: "eligibleChecks roundDouble ?A ?sb ([] @ ?B # ?ys) =
      [\<lparr>axis = AxisX, delta = - (17 / 8)\<rparr>, \<lparr>axis = AxisX, delta = - (1 / 8)\<rparr>]"
    by (simp add: entry_simps box_far box_0_0_0 cubeAt_uuid gatedChecks_def snapChecks_def
        boxOf_def double_eval)
  have h3: "bestSnap roundDouble ([] @ ?B # ?ys) ?A ?sb = Some ?c"
    unfolding bestSnap_scan el
    by (simp add: groundCheck_def threshold_eval boxOf_def double_eval)
  have h4: "\<not> overlaps (axis ?c) ?sb ?tb"
    by (simp add: boxOf_def)
  from gate_failing_candidate_never_selected [OF h1 h2 h3 h4] show ?thesis by simp
qed

lemma overlaps_other:
  assumes "\<forall>ax. ax \<noteq> a \<longrightarrow>
             getComponent ax (bmin sb') = getComponent ax (bmin sb) \<and>
             getComponent ax (bmax sb') = getComponent ax (bmax sb)"
  shows "overlaps a sb' tb = overlaps a sb tb"
proof (cases a)
  case AxisX
  with assms [rule_format, of AxisY] assms [rule_format, of AxisZ] show ?thesis by simp
next
  case AxisY
  with assms [rule_format, of AxisX] assms [rule_format, of AxisZ] show ?thesis by simp
next
  case AxisZ
  with assms [rule_format, of AxisX] assms [rule_format, of AxisY] show ?thesis by simp
qed

text \<open>What the search returns: the ground alignment, or the scanned minimum.\<close>

lemma bestSnap_compare:
  assumes bs: "bestSnap rnd los src sb = Some c"
    and mem: "c' \<in> set (eligibleChecks rnd src sb los)"
  shows "fmul rnd (delta c) (delta c) \<le> fmul rnd (delta c') (delta c') \<or>
         (c = \<lparr>axis = AxisY, delta = - vy (bmin sb)\<rparr> \<and>
          fmul rnd (vy (bmin sb)) (vy (bmin sb)) \<le> fmul rnd (delta c') (delta c'))"
proof -
  let ?T2 = "fmul rnd (SNAP_THRESHOLD rnd) (SNAP_THRESHOLD rnd)"
  obtain m b where sc: "scanChecks rnd (eligibleChecks rnd src sb los) (?T2, None) = (m, b)"
    by (cases "scanChecks rnd (eligibleChecks rnd src sb los) (?T2, None)")
  from scanChecks_lower [OF sc] mem have le: "m \<le> fmul rnd (delta c') (delta c')" by blast
  from bs have g: "groundCheck rnd sb (m, b) = Some c" by (simp add: bestSnap_scan sc)
  show ?thesis
  proof (cases "fmul rnd (vy (bmin sb)) (vy (bmin sb)) < m \<and> \<bar>vy (bmin sb)\<bar> < SNAP_THRESHOLD rnd")
    case True
    with g have "c = \<lparr>axis = AxisY, delta = - vy (bmin sb)\<rparr>"
      by (auto simp: groundCheck_def Let_def)
    with True le show ?thesis by simp
  next
    case False
    with g have b: "b = Some c" by (auto simp: groundCheck_def Let_def)
    from scanChecks_origin [OF sc] b have "m = fmul rnd (delta c) (delta c)" by auto
    with le show ?thesis by simp
  qed
qed

lemma bestSnap_ground_compare:
  assumes bs: "bestSnap rnd los src sb = Some c"
    and near: "\<bar>vy (bmin sb)\<bar> < SNAP_THRESHOLD rnd"
  shows "c = \<lparr>axis = AxisY, delta = - vy (bmin sb)\<rparr> \<or>
         fmul rnd (delta c) (delta c) \<le> fmul rnd (vy (bmin sb)) (vy (bmin sb))"
proof -
  let ?T2 = "fmul rnd (SNAP_THRESHOLD rnd) (SNAP_THRESHOLD rnd)"
  obtain m b where sc: "scanChecks rnd (eligibleChecks rnd src sb los) (?T2, None) = (m, b)"
    by (cases "scanChecks rnd (eligibleChecks rnd src sb los) (?T2, None)")
  from bs have g: "groundCheck rnd sb (m, b) = Some c" by (simp add: bestSnap_scan sc)
  show ?thesis
  proof (cases "fmul rnd (vy (bmin sb)) (vy (bmin sb)) < m")
    case True
    with g near show ?thesis by (auto simp: groundCheck_def Let_def)
  next
    case False
    with g have b: "b = Some c" by (auto simp: groundCheck_def Let_def)
    from scanChecks_origin [OF sc] b have "m = fmul rnd (delta c) (delta c)" by auto
    with False show ?thesis by simp
  qed
qed

lemma bestSnap_small:
  assumes rw: "roundsWithin rnd u" and bs: "bestSnap rnd los src sb = Some c"
  shows "\<bar>delta c\<bar> \<le> 1"
proof -
  from bestSnap_origin [OF bs] show ?thesis
  proof
    assume "c = \<lparr>axis = AxisY, delta = - vy (bmin sb)\<rparr> \<and> \<bar>vy (bmin sb)\<bar> < SNAP_THRESHOLD rnd"
    with threshold_range [OF rw] show ?thesis by simp
  next
    assume "c \<in> set (eligibleChecks rnd src sb los) \<and>
          fmul rnd (delta c) (delta c) < fmul rnd (SNAP_THRESHOLD rnd) (SNAP_THRESHOLD rnd)"
    then show ?thesis using within_threshold_small [OF rw] by blast
  qed
qed

text \<open>
  After a snap, the alignment a second search selects is of the size of the rounding
  error of the first.
\<close>

lemma second_delta:
  assumes rw: "roundsWithin rnd u"
    and box: "getObjectAABB rnd src = Some sb"
    and bs: "bestSnap rnd los src sb = Some c"
    and P: "\<bar>getComponent (axis c) (position src)\<bar> \<le> P"
    and Q: "\<forall>v \<in> set (geometry src). \<bar>getComponent (axis c) (localOffset rnd src v)\<bar> \<le> Q"
    and fine: "u * (4 * P + 2 * Q + 5) < 1 / 10"
    and box1: "getObjectAABB rnd (src\<lparr>position := addv rnd (position src) (snapVector c)\<rparr>) = Some sb1"
    and bs2: "bestSnap rnd los (src\<lparr>position := addv rnd (position src) (snapVector c)\<rparr>) sb1 = Some c2"
  shows "\<bar>delta c2\<bar> \<le> 4 * (u * (4 * P + 2 * Q + 5))"
proof -
  let ?o1 = "src\<lparr>position := addv rnd (position src) (snapVector c)\<rparr>"
  let ?e1 = "u * (4 * P + 2 * Q + 3)"
  let ?e = "u * (4 * P + 2 * Q + 5)"
  from rw_bounds [OF rw] have u0: "0 \<le> u" by simp
  have e1e: "?e1 \<le> ?e" using u0 by (intro mult_left_mono) simp_all
  have small: "\<bar>delta c\<bar> \<le> 1" by (rule bestSnap_small [OF rw bs])
  from moved_box [OF rw box small P Q] box1 have
    lo: "\<bar>getComponent (axis c) (bmin sb1) - (getComponent (axis c) (bmin sb) + delta c)\<bar> \<le> ?e1"
    and hi: "\<bar>getComponent (axis c) (bmax sb1) - (getComponent (axis c) (bmax sb) + delta c)\<bar> \<le> ?e1"
    and other: "\<forall>ax. ax \<noteq> axis c \<longrightarrow>
        getComponent ax (bmin sb1) = getComponent ax (bmin sb) \<and>
        getComponent ax (bmax sb1) = getComponent ax (bmax sb)"
    by auto
  have el: "eligibleChecks rnd ?o1 sb1 los = eligibleChecks rnd src sb1 los"
    by (rule eligibleChecks_uuid) simp
  from bestSnap_origin [OF bs] show ?thesis
  proof
    assume g: "c = \<lparr>axis = AxisY, delta = - vy (bmin sb)\<rparr> \<and> \<bar>vy (bmin sb)\<bar> < SNAP_THRESHOLD rnd"
    with lo have m1: "\<bar>vy (bmin sb1)\<bar> \<le> ?e1" by simp
    with e1e fine threshold_range [OF rw] have near1: "\<bar>vy (bmin sb1)\<bar> < SNAP_THRESHOLD rnd"
      by linarith
    from bestSnap_ground_compare [OF bs2 near1] have "\<bar>delta c2\<bar> \<le> 2 * \<bar>vy (bmin sb1)\<bar>"
    proof
      assume "c2 = \<lparr>axis = AxisY, delta = - vy (bmin sb1)\<rparr>"
      then show ?thesis by simp
    next
      assume "fmul rnd (delta c2) (delta c2) \<le> fmul rnd (vy (bmin sb1)) (vy (bmin sb1))"
      then show ?thesis by (rule square_compare [OF rw])
    qed
    with m1 e1e show ?thesis by linarith
  next
    assume "c \<in> set (eligibleChecks rnd src sb los) \<and>
          fmul rnd (delta c) (delta c) < fmul rnd (SNAP_THRESHOLD rnd) (SNAP_THRESHOLD rnd)"
    then obtain t tb where t: "t \<in> set los" "uuid (object t) \<noteq> uuid src"
      "getObjectAABB rnd (object t) = Some tb" "c \<in> set (snapChecks rnd sb tb)"
      "overlaps (axis c) sb tb"
      by (auto simp: eligibleChecks_mem)
    from t(4) obtain k where k: "k < 6" "c = snapChecks rnd sb tb ! k"
      by (auto simp: in_set_conv_nth length_snapChecks)
    let ?c' = "snapChecks rnd sb1 tb ! k"
    have ax: "axis ?c' = axis c" unfolding k(2) by (rule snapChecks_nth_axis [OF k(1)])
    have "overlaps (axis ?c') sb1 tb" using t(5) by (simp add: ax overlaps_other [OF other])
    moreover have "?c' \<in> set (snapChecks rnd sb1 tb)" using k(1) by (simp add: length_snapChecks)
    ultimately have mem: "?c' \<in> set (eligibleChecks rnd ?o1 sb1 los)"
      using t(1,2,3) unfolding el eligibleChecks_mem by blast
    from delta_exact [OF rw k(1), of sb tb] small
    have "\<bar>exactGaps sb tb ! k\<bar> \<le> 2" by (simp add: k(2) [symmetric])
    with u0 have "u * \<bar>exactGaps sb tb ! k\<bar> \<le> u * 2" by (intro mult_left_mono)
    with delta_exact [OF rw k(1), of sb tb]
    have d: "\<bar>delta c - exactGaps sb tb ! k\<bar> \<le> u * 2" by (simp add: k(2) [symmetric])
    have "\<bar>exactGaps sb1 tb ! k\<bar> \<le> ?e1 + u * 2"
      by (rule gap_after [OF k(1) lo [unfolded k(2)] hi [unfolded k(2)] d [unfolded k(2)]])
    hence gap: "\<bar>exactGaps sb1 tb ! k\<bar> \<le> ?e" by (simp add: algebra_simps)
    have "\<bar>delta ?c' - exactGaps sb1 tb ! k\<bar> \<le> u * \<bar>exactGaps sb1 tb ! k\<bar>"
      using delta_exact [OF rw k(1), of sb1 tb] by simp
    moreover have "u * \<bar>exactGaps sb1 tb ! k\<bar> \<le> 1 * \<bar>exactGaps sb1 tb ! k\<bar>"
      using rw_bounds [OF rw] by (intro mult_right_mono) simp_all
    ultimately have d': "\<bar>delta ?c'\<bar> \<le> 2 * ?e" using gap by linarith
    from bestSnap_compare [OF bs2 mem] have "\<bar>delta c2\<bar> \<le> 2 * \<bar>delta ?c'\<bar>"
    proof
      assume "fmul rnd (delta c2) (delta c2) \<le> fmul rnd (delta ?c') (delta ?c')"
      then show ?thesis by (rule square_compare [OF rw])
    next
      assume a: "c2 = \<lparr>axis = AxisY, delta = - vy (bmin sb1)\<rparr> \<and>
          fmul rnd (vy (bmin sb1)) (vy (bmin sb1)) \<le> fmul rnd (delta ?c') (delta ?c')"
      then have "\<bar>vy (bmin sb1)\<bar> \<le> 2 * \<bar>delta ?c'\<bar>" using square_compare [OF rw] by blast
      with a show ?thesis by simp
    qed
    with d' show ?thesis by linarith
  qed
qed

text \<open>
  Claim C6, amended. A second call of \<^verbatim>\<open>applySnapAdjustment\<close> right after the first,
  on the registry as the first call left it, changes the position on at most one axis
  and by no more than a rounding error: when the arithmetic rounds with relative error
  at most \<open>u\<close>, the position of the object is at most \<open>P\<close> and the offsets of its
  vertices from its position are at most \<open>Q\<close> in absolute value on every axis, and
  \<open>u * (4 * P + 2 * Q + 5)\<close> is below a tenth, the second call moves the object by at
  most \<open>u * (18 * P + 8 * Q + 23)\<close>; it changes nothing when the arithmetic is exact.
  Rotation and scale are never changed.
\<close>

theorem snap_twice_within_rounding:
  assumes rw: "roundsWithin rnd u"
    and P: "\<forall>ax. \<bar>getComponent ax (position src)\<bar> \<le> P"
    and Q0: "0 \<le> Q"
    and Q: "\<forall>ax. \<forall>v \<in> set (geometry src). \<bar>getComponent ax (localOffset rnd src v)\<bar> \<le> Q"
    and fine: "u * (4 * P + 2 * Q + 5) < 1 / 10"
  shows "(\<exists>ax. (\<forall>ax'. ax' \<noteq> ax \<longrightarrow>
                 getComponent ax' (position (applySnapAdjustment rnd
                    (registryAfter los (applySnapAdjustment rnd los src))
                    (applySnapAdjustment rnd los src))) =
                 getComponent ax' (position (applySnapAdjustment rnd los src))) \<and>
              \<bar>getComponent ax (position (applySnapAdjustment rnd
                    (registryAfter los (applySnapAdjustment rnd los src))
                    (applySnapAdjustment rnd los src))) -
               getComponent ax (position (applySnapAdjustment rnd los src))\<bar>
                \<le> u * (18 * P + 8 * Q + 23)) \<and>
         rotation (applySnapAdjustment rnd (registryAfter los (applySnapAdjustment rnd los src))
                    (applySnapAdjustment rnd los src)) = rotation src \<and>
         scale (applySnapAdjustment rnd (registryAfter los (applySnapAdjustment rnd los src))
                    (applySnapAdjustment rnd los src)) = scale src"
proof -
  let ?o1 = "applySnapAdjustment rnd los src"
  let ?o2 = "applySnapAdjustment rnd (registryAfter los ?o1) ?o1"
  let ?K = "u * (18 * P + 8 * Q + 23)"
  from rw_bounds [OF rw] have u0: "0 \<le> u" "u \<le> 1 / 2" by simp_all
  from P [rule_format, of AxisX] have P0: "0 \<le> P" by linarith
  have K0: "0 \<le> ?K" using u0 P0 Q0 by (intro mult_nonneg_nonneg) simp_all
  have reg: "?o2 = applySnapAdjustment rnd los ?o1" by (rule apply_registryAfter [OF refl])
  have same: "?o2 = ?o1 \<Longrightarrow> ?thesis"
  proof -
    assume eq: "?o2 = ?o1"
    have "rotation ?o1 = rotation src \<and> scale ?o1 = scale src"
      using apply_cases [of rnd los src] by auto
    moreover have "(\<forall>ax'. ax' \<noteq> AxisX \<longrightarrow>
                 getComponent ax' (position ?o2) = getComponent ax' (position ?o1)) \<and>
              \<bar>getComponent AxisX (position ?o2) - getComponent AxisX (position ?o1)\<bar> \<le> ?K"
      using K0 by (simp only: eq) simp
    ultimately show ?thesis by (simp only: eq) blast
  qed
  from apply_cases [of rnd los src] show ?thesis
  proof
    assume a: "?o1 = src"
    have "?o2 = ?o1" unfolding reg by (simp only: a)
    then show ?thesis by (rule same)
  next
    assume "\<exists>sb c. getObjectAABB rnd src = Some sb \<and> bestSnap rnd los src sb = Some c \<and>
      ?o1 = src\<lparr>position := addv rnd (position src) (snapVector c)\<rparr>"
    then obtain sb c where box: "getObjectAABB rnd src = Some sb"
      and bs: "bestSnap rnd los src sb = Some c"
      and o1: "?o1 = src\<lparr>position := addv rnd (position src) (snapVector c)\<rparr>"
      by blast
    let ?m = "src\<lparr>position := addv rnd (position src) (snapVector c)\<rparr>"
    from apply_cases [of rnd los ?m] show ?thesis
    proof
      assume "applySnapAdjustment rnd los ?m = ?m"
      then have "?o2 = ?o1" unfolding reg by (simp only: o1)
      then show ?thesis by (rule same)
    next
      assume "\<exists>sb1 c2. getObjectAABB rnd ?m = Some sb1 \<and> bestSnap rnd los ?m sb1 = Some c2 \<and>
        applySnapAdjustment rnd los ?m = ?m\<lparr>position := addv rnd (position ?m) (snapVector c2)\<rparr>"
      then obtain sb1 c2 where box1: "getObjectAABB rnd ?m = Some sb1"
        and bs2: "bestSnap rnd los ?m sb1 = Some c2"
        and ap2: "applySnapAdjustment rnd los ?m =
                    ?m\<lparr>position := addv rnd (position ?m) (snapVector c2)\<rparr>"
        by blast
      have o2: "?o2 = ?m\<lparr>position := addv rnd (position ?m) (snapVector c2)\<rparr>"
        unfolding reg by (simp only: o1 ap2)
      let ?e = "u * (4 * P + 2 * Q + 5)"
      have d2: "\<bar>delta c2\<bar> \<le> 4 * ?e"
        by (rule second_delta [OF rw box bs P [THEN spec] Q [THEN spec] fine box1 bs2])
      with fine have d2s: "\<bar>delta c2\<bar> \<le> 1" by linarith
      let ?p1 = "getComponent (axis c2) (position ?m)"
      have small: "\<bar>delta c\<bar> \<le> 1" by (rule bestSnap_small [OF rw bs])
      have p1: "\<bar>?p1\<bar> \<le> 2 * P + 2"
      proof (cases "axis c2 = axis c")
        case True
        have "\<bar>getComponent (axis c) (position src) + delta c\<bar> \<le> P + 1"
          using P [rule_format, of "axis c"] small by argo
        with fadd_abs [OF rw, of "getComponent (axis c) (position src)" "delta c"]
        have "\<bar>fadd rnd (getComponent (axis c) (position src)) (delta c)\<bar> \<le> 2 * P + 2"
          by argo
        with True show ?thesis by (simp add: comp_snapVector)
      next
        case False
        with P [rule_format, of "axis c2"] P0 show ?thesis by (simp add: comp_snapVector)
      qed
      have "\<bar>?p1 + delta c2\<bar> \<le> 2 * P + 3" using p1 d2s by argo
      with u0 have "u * \<bar>?p1 + delta c2\<bar> \<le> u * (2 * P + 3)" by (intro mult_left_mono)
      with fadd_err [OF rw, of ?p1 "delta c2"]
      have "\<bar>fadd rnd ?p1 (delta c2) - (?p1 + delta c2)\<bar> \<le> u * (2 * P + 3)" by linarith
      with d2 have "\<bar>fadd rnd ?p1 (delta c2) - ?p1\<bar> \<le> 4 * ?e + u * (2 * P + 3)" by argo
      also have "\<dots> = ?K" by (simp add: algebra_simps)
      finally have step: "\<bar>fadd rnd ?p1 (delta c2) - ?p1\<bar> \<le> ?K" .
      have pos2: "position ?o2 = addv rnd (position ?m) (snapVector c2)"
        by (simp only: o2) simp
      have pos1: "position ?o1 = position ?m" by (simp only: o1)
      have "(\<forall>ax'. ax' \<noteq> axis c2 \<longrightarrow>
                 getComponent ax' (position ?o2) = getComponent ax' (position ?o1)) \<and>
              \<bar>getComponent (axis c2) (position ?o2) - getComponent (axis c2) (position ?o1)\<bar>
                \<le> ?K"
        using step by (simp only: pos2 pos1 comp_snapVector) simp
      moreover have "rotation ?o2 = rotation src \<and> scale ?o2 = scale src"
        unfolding o2 by simp
      ultimately show ?thesis by blast
    qed
  qed
qed

theorem snap_twice_within_rounding_witness:
  "\<exists>ax. \<bar>getComponent ax (position (applySnapAdjustment roundDouble
              (registryAfter gapScene (applySnapAdjustment roundDouble gapScene gapMover))
              (applySnapAdjustment roundDouble gapScene gapMover))) -
         getComponent ax (position (applySnapAdjustment roundDouble gapScene gapMover))\<bar>
          \<le> 1 / 2 ^ 53 * (18 * 1 + 8 * 1 + 23)"
proof -
  have h1: "\<forall>ax. \<bar>getComponent ax (position gapMover)\<bar> \<le> 1"
  proof
    fix ax show "\<bar>getComponent ax (position gapMover)\<bar> \<le> 1"
      by (cases ax) (simp_all add: gapMover_def cubeAt_def double_eval)
  qed
  have h2: "\<forall>ax. \<forall>v \<in> set (geometry gapMover).
              \<bar>getComponent ax (localOffset roundDouble gapMover v)\<bar> \<le> 1"
  proof
    fix ax show "\<forall>v \<in> set (geometry gapMover).
              \<bar>getComponent ax (localOffset roundDouble gapMover v)\<bar> \<le> 1"
      by (cases ax)
         (simp_all add: gapMover_def cubeAt_def unitCube_def localOffset_def applyMat_def
           mulv_def dotv_def identityRotation_def fadd_def fmul_def)
  qed
  have h3: "1 / 2 ^ 53 * (4 * 1 + 2 * 1 + 5) < (1 / 10 :: real)" by simp
  have h0: "(0::real) \<le> 1" by simp
  from snap_twice_within_rounding [OF roundDouble_roundsWithin h1 h0 h2 h3, of gapScene]
  show ?thesis by blast
qed

section \<open>Import and dimension edits\<close>

lemma aborted_outcome:
  "abortedAnswers pf ans \<longleftrightarrow>
     promptDimensions pf ans = Cancelled \<or> promptDimensions pf ans = InvalidInput"
  by (auto simp: abortedAnswers_def rejectedAnswer_def rejectedNumber_def promptDimensions_def
      isNaN_def notPositive_def Let_def split: option.splits jsnum.splits)

lemma accepted_outcome:
  "promptDimensions pf ans = Dimensions w h d \<Longrightarrow> 0 < w \<and> 0 < h \<and> 0 < d"
  by (auto simp: promptDimensions_def isNaN_def notPositive_def Let_def
      split: option.splits jsnum.splits if_splits)

lemma onLoad_aborted:
  "abortedAnswers pf (answers ev) \<Longrightarrow> onLoad rnd pf st ev parsed = finishImport st"
  by (auto simp: aborted_outcome onLoad_def Let_def split: parseOutcome.splits)

text \<open>
  Claim C9. If any of the three requested dimensions is rejected (its prompt cancelled,
  or its text not a number, or not positive), the import leaves every part of the state
  as it was except the loading spinner and the value of the file input, which the
  import resets on every path: no object is registered, no list row and no highlight
  visual is created, the name counter does not advance. The edit leaves the state
  exactly as it was, the edited object's transform and registry entry included.
\<close>

theorem invalid_input_aborts:
  assumes "abortedAnswers parseFloat (answers ev)"
  shows "handleFileSelect rnd parseFloat st ev =
           st\<lparr>spinnerShown := spinnerShown (handleFileSelect rnd parseFloat st ev),
              fileInputValue := []\<rparr> \<and>
         promptAndSetDimensions rnd parseFloat st ref (answers ev) = st"
proof
  show "handleFileSelect rnd parseFloat st ev =
           st\<lparr>spinnerShown := spinnerShown (handleFileSelect rnd parseFloat st ev),
              fileInputValue := []\<rparr>"
    using assms
    by (simp add: handleFileSelect_def onLoad_aborted finishImport_def
        split: option.splits readOutcome.splits)
  show "promptAndSetDimensions rnd parseFloat st ref (answers ev) = st"
    using assms
    by (auto simp: promptAndSetDimensions_def aborted_outcome Let_def split: option.splits)
qed

text \<open>What the registry operations leave alone: the object and the natural size of every entry.\<close>

lemma map_update_same: "f y = f (xs ! i) \<Longrightarrow> map f (xs[i := y]) = map f xs"
proof (cases "i < length xs")
  case True
  assume "f y = f (xs ! i)"
  with True have "(map f xs)[i := f y] = map f xs"
    by (metis list_update_id nth_map)
  then show ?thesis by (simp add: map_update)
next
  case False
  then show ?thesis by (simp add: not_less list_update_beyond)
qed

lemma coreOf_updateBoxHelperState [simp]: "coreOf (updateBoxHelperState d a b) = coreOf d"
  by (simp add: coreOf_def updateBoxHelperState_def split: option.splits)

lemma coreOf_setSelectedClass [simp]: "coreOf (setSelectedClass b d) = coreOf d"
  by (simp add: coreOf_def setSelectedClass_def)

lemma core_updateAllBoxHelpers [simp]:
  "map coreOf (updateAllBoxHelpers sel dr ds) = map coreOf ds"
proof -
  have "map coreOf (updateAllBoxHelpers sel dr ds) = map (coreOf \<circ> snd) (enumerate 0 ds)"
    by (simp add: updateAllBoxHelpers_def split_def comp_def)
  also have "\<dots> = map coreOf (map snd (enumerate 0 ds))" by (simp only: map_map)
  also have "\<dots> = map coreOf ds" by (simp only: map_snd_enumerate)
  finally show ?thesis .
qed

lemma core_deselectObject [simp]:
  "map coreOf (loadedObjects (deselectObject st)) = map coreOf (loadedObjects st)"
  by (simp add: deselectObject_def Let_def map_update_same comp_def split: option.splits)

lemma core_setTransformMode [simp]:
  "map coreOf (loadedObjects (setTransformMode st m)) = map coreOf (loadedObjects st)"
  by (simp add: setTransformMode_def split: option.splits)

lemma core_selectObject [simp]:
  "map coreOf (loadedObjects (selectObject st ob)) = map coreOf (loadedObjects st)"
  by (simp add: selectObject_def Let_def map_update_same split: option.splits)

lemma core_updateListItemContent [simp]:
  "map coreOf (loadedObjects (updateListItemContent rnd st i)) = map coreOf (loadedObjects st)"
  by (simp add: updateListItemContent_def Let_def map_update_same coreOf_def)

lemma core_finishImport [simp]: "loadedObjects (finishImport st) = loadedObjects st"
  by (simp add: finishImport_def)

lemma import_core:
  assumes "fileName ev = Some name" "isObjFileName name" "readResult ev = Loaded (Parsed vs)"
    and "\<not> abortedAnswers pf (answers ev)"
  shows "map coreOf (loadedObjects (handleFileSelect rnd pf st ev)) =
         map coreOf (loadedObjects st) @
           [(placeImported rnd (parsedObject (newUuid ev) vs)
               (naturalSize rnd (parsedObject (newUuid ev) vs))
               (promptDimensions pf (answers ev)),
             naturalSize rnd (parsedObject (newUuid ev) vs))]"
proof (cases "promptDimensions pf (answers ev)")
  case Cancelled
  with assms(4) show ?thesis by (simp add: aborted_outcome)
next
  case InvalidInput
  with assms(4) show ?thesis by (simp add: aborted_outcome)
next
  case (Dimensions w h d)
  with assms(1-3) show ?thesis
    by (simp add: handleFileSelect_def onLoad_def Let_def coreOf_def)
next
  case InfiniteDimensions
  with assms(1-3) show ?thesis
    by (simp add: handleFileSelect_def onLoad_def Let_def coreOf_def)
qed

lemma last_core:
  assumes "map coreOf xs = ys @ [(ob, sz)]"
  shows "object (last xs) = ob \<and> initialSize (last xs) = sz \<and> length xs = length ys + 1"
proof -
  from assms have ne: "xs \<noteq> []" by auto
  then have "coreOf (last xs) = last (map coreOf xs)" by (simp add: last_map)
  with assms have "coreOf (last xs) = (ob, sz)" by simp
  moreover from assms have "length (map coreOf xs) = length ys + 1" by simp
  ultimately show ?thesis by (simp add: coreOf_def)
qed

lemma edit_core:
  assumes "i < length (loadedObjects st)" "\<not> abortedAnswers pf ans"
  shows "map coreOf (loadedObjects (promptAndSetDimensions rnd pf st (Some i) ans)) =
         (map coreOf (loadedObjects st))
           [i := (placeEdited rnd (object (loadedObjects st ! i))
                    (initialSize (loadedObjects st ! i)) (promptDimensions pf ans),
                  initialSize (loadedObjects st ! i))]"
proof (cases "promptDimensions pf ans")
  case Cancelled
  with assms(2) show ?thesis by (simp add: aborted_outcome)
next
  case InvalidInput
  with assms(2) show ?thesis by (simp add: aborted_outcome)
next
  case (Dimensions w h d)
  then show ?thesis
    by (simp add: promptAndSetDimensions_def Let_def map_update coreOf_def)
next
  case InfiniteDimensions
  then show ?thesis
    by (simp add: promptAndSetDimensions_def Let_def map_update coreOf_def)
qed

lemma isObj_example: "isObjFileName ''model.obj''"
  by (simp add: isObjFileName_def)

lemma prompt_example:
  "promptDimensions exampleParseFloat (answersOf ''1'' ''1'' ''1'') = Dimensions 1 1 1"
  "promptDimensions exampleParseFloat (answersOf ''2'' ''2'' ''2'') = Dimensions 2 2 2"
  "promptDimensions exampleParseFloat (answersOf ''1'' ''2'' ''3'') = Dimensions 1 2 3"
  "promptDimensions exampleParseFloat (answersOf ''1'' ''2'' ''1'') = Dimensions 1 2 1"
  "promptDimensions exampleParseFloat (answersOf ''2'' ''3'' ''1'') = Dimensions 2 3 1"
  "promptDimensions exampleParseFloat (answersOf ''Infinity'' ''1'' ''1'') = InfiniteDimensions"
  by (simp_all add: promptDimensions_def exampleParseFloat_def answersOf_def isNaN_def
      notPositive_def)

lemma accepted_example:
  "\<not> abortedAnswers exampleParseFloat (answersOf ''1'' ''1'' ''1'')"
  "\<not> abortedAnswers exampleParseFloat (answersOf ''2'' ''2'' ''2'')"
  "\<not> abortedAnswers exampleParseFloat (answersOf ''1'' ''2'' ''3'')"
  "\<not> abortedAnswers exampleParseFloat (answersOf ''1'' ''2'' ''1'')"
  "\<not> abortedAnswers exampleParseFloat (answersOf ''2'' ''3'' ''1'')"
  "\<not> abortedAnswers exampleParseFloat (answersOf ''Infinity'' ''1'' ''1'')"
  by (simp_all add: aborted_outcome prompt_example)

lemma example_import_core:
  assumes "\<not> abortedAnswers exampleParseFloat ans"
  shows "map coreOf (loadedObjects (handleFileSelect rnd exampleParseFloat initialState
            (importOf u vs ans))) =
         [(placeImported rnd (parsedObject u vs) (naturalSize rnd (parsedObject u vs))
             (promptDimensions exampleParseFloat ans),
           naturalSize rnd (parsedObject u vs))]"
proof -
  have "map coreOf (loadedObjects (handleFileSelect rnd exampleParseFloat initialState
            (importOf u vs ans))) =
        map coreOf (loadedObjects initialState) @
         [(placeImported rnd (parsedObject (newUuid (importOf u vs ans)) vs)
              (naturalSize rnd (parsedObject (newUuid (importOf u vs ans)) vs))
              (promptDimensions exampleParseFloat (answers (importOf u vs ans))),
           naturalSize rnd (parsedObject (newUuid (importOf u vs ans)) vs))]"
    by (rule import_core [where name = "''model.obj''"])
       (simp_all add: importOf_def isObj_example assms)
  then show ?thesis by (simp add: initialState_def importOf_def)
qed

lemma single_core:
  assumes "map coreOf ds = [(ob, sz)]"
  shows "length ds = 1 \<and> object (ds ! 0) = ob \<and> initialSize (ds ! 0) = sz \<and> last ds = ds ! 0"
proof -
  from assms obtain x where "ds = [x]" by (cases ds) auto
  with assms show ?thesis by (simp add: coreOf_def)
qed

section \<open>Selection\<close>

lemma colors_differ: "BOX_HELPER_COLOR_INACTIVE \<noteq> BOX_HELPER_COLOR_ACTIVE"
  by (simp add: BOX_HELPER_COLOR_INACTIVE_def BOX_HELPER_COLOR_ACTIVE_def)

lemma ubhs_listItem [simp]: "listItem (updateBoxHelperState d a b) = listItem d"
  by (simp add: updateBoxHelperState_def split: option.splits)

lemma ubhs_has [simp]: "hasHelper (updateBoxHelperState d a b) = hasHelper d"
  by (simp add: updateBoxHelperState_def hasHelper_def split: option.splits)

lemma ubhs_shown [simp]:
  "highlightShown (updateBoxHelperState d a b) = (hasHelper d \<and> (a \<or> b))"
  by (simp add: updateBoxHelperState_def highlightShown_def hasHelper_def split: option.splits)

lemma ubhs_active [simp]:
  "highlightActive (updateBoxHelperState d a b) = (hasHelper d \<and> a)"
  using colors_differ
  by (auto simp: updateBoxHelperState_def highlightActive_def hasHelper_def split: option.splits)

lemma ssc_fields [simp]:
  "selectedClass (listItem (setSelectedClass b d)) = b"
  "hasHelper (setSelectedClass b d) = hasHelper d"
  "highlightShown (setSelectedClass b d) = highlightShown d"
  "highlightActive (setSelectedClass b d) = highlightActive d"
  by (simp_all add: setSelectedClass_def highlightShown_def highlightActive_def hasHelper_def)

lemma deselect_simple [simp]:
  "selectedObjectData (deselectObject st) = None"
  "isDraggingTransform (deselectObject st) = False"
  "length (loadedObjects (deselectObject st)) = length (loadedObjects st)"
  by (simp_all add: deselectObject_def Let_def split: option.splits)

lemma deselect_nth:
  assumes "j < length (loadedObjects st)"
  shows "loadedObjects (deselectObject st) ! j =
     (let d = (if selectedObjectData st = Some j
               then updateBoxHelperState (setSelectedClass False (loadedObjects st ! j)) False False
               else loadedObjects st ! j)
      in if isDraggingTransform st then updateBoxHelperState d False False else d)"
  using assms
  by (cases "selectedObjectData st")
     (simp_all add: deselectObject_def Let_def nth_list_update)

lemma inv_deselect:
  assumes "selectionInv st"
  shows "selectionInv (deselectObject st)"
proof -
  have "entryOk (deselectObject st) j" if j: "j < length (loadedObjects st)" for j
  proof -
    from assms j have ok: "entryOk st j" by (simp add: selectionInv_def)
    show ?thesis
      using ok unfolding entryOk_def deselect_nth [OF j]
      by (auto simp: Let_def)
  qed
  then show ?thesis by (simp add: selectionInv_def)
qed

lemma find_from:
  "findObjectDataFrom k ds ob = Some i \<Longrightarrow>
   k \<le> i \<and> i < k + length ds \<and> uuid (object (ds ! (i - k))) = ob"
proof (induction ds arbitrary: k)
  case Nil
  then show ?case by simp
next
  case (Cons d ds)
  show ?case
  proof (cases "uuid (object d) = ob")
    case True
    with Cons.prems show ?thesis by simp
  next
    case False
    with Cons.prems have "findObjectDataFrom (Suc k) ds ob = Some i" by simp
    from Cons.IH [OF this] show ?thesis by (auto simp: nth_Cons' Suc_diff_Suc)
  qed
qed

lemma find_some:
  "findObjectData ds ob = Some i \<Longrightarrow> i < length ds \<and> uuid (object (ds ! i)) = ob"
  using find_from [of 0 ds ob i] by (simp add: findObjectData_def)

lemma find_from_none:
  "findObjectDataFrom k ds ob = None \<longleftrightarrow> (\<forall>d \<in> set ds. uuid (object d) \<noteq> ob)"
  by (induction ds arbitrary: k) auto

lemma find_member:
  "j < length ds \<Longrightarrow> \<exists>i. findObjectData ds (uuid (object (ds ! j))) = Some i"
proof -
  assume "j < length ds"
  then have "\<not> (\<forall>d \<in> set ds. uuid (object d) \<noteq> uuid (object (ds ! j)))"
    using nth_mem by blast
  then have "findObjectDataFrom 0 ds (uuid (object (ds ! j))) \<noteq> None"
    by (simp only: find_from_none) simp
  then show ?thesis by (auto simp: findObjectData_def)
qed

lemma uabh_length [simp]: "length (updateAllBoxHelpers sel dr ds) = length ds"
  by (simp add: updateAllBoxHelpers_def)

lemma uabh_nth:
  "j < length ds \<Longrightarrow>
   updateAllBoxHelpers sel dr ds ! j = updateBoxHelperState (ds ! j) (sel = Some j) dr"
  by (simp add: updateAllBoxHelpers_def nth_enumerate_eq)

lemma select_noop:
  "findObjectData (loadedObjects st) ob = None \<or> alreadySelected st ob \<Longrightarrow> selectObject st ob = st"
  by (auto simp: selectObject_def alreadySelected_def split: option.splits)

lemma select_simple:
  assumes "findObjectData (loadedObjects st) ob = Some i" "\<not> alreadySelected st ob"
  shows "selectedObjectData (selectObject st ob) = Some i"
    and "isDraggingTransform (selectObject st ob) = False"
    and "length (loadedObjects (selectObject st ob)) = length (loadedObjects st)"
  using assms
  by (simp_all add: selectObject_def alreadySelected_def Let_def setTransformMode_def)

lemma select_nth:
  assumes f: "findObjectData (loadedObjects st) ob = Some i" and n: "\<not> alreadySelected st ob"
    and j: "j < length (loadedObjects st)"
  shows "loadedObjects (selectObject st ob) ! j =
     (let d1 = loadedObjects (deselectObject st) ! j;
          d3 = (if j = i then setSelectedClass True d1 else d1);
          d5 = updateBoxHelperState d3 (j = i) False
      in if j = i then updateBoxHelperState d5 True False else d5)"
proof -
  from find_some [OF f] have i: "i < length (loadedObjects st)" by simp
  show ?thesis
    using f n i j
    by (simp add: selectObject_def alreadySelected_def Let_def setTransformMode_def
        uabh_nth nth_list_update eq_commute [of i j])
qed

lemma inv_select:
  assumes inv: "selectionInv st"
  shows "selectionInv (selectObject st ob)"
proof (cases "findObjectData (loadedObjects st) ob = None \<or> alreadySelected st ob")
  case True
  with inv show ?thesis by (simp add: select_noop)
next
  case False
  then obtain i where f: "findObjectData (loadedObjects st) ob = Some i"
    and n: "\<not> alreadySelected st ob" by auto
  from find_some [OF f] have i: "i < length (loadedObjects st)" by simp
  have inv1: "selectionInv (deselectObject st)" by (rule inv_deselect [OF inv])
  have "entryOk (selectObject st ob) j" if j: "j < length (loadedObjects st)" for j
  proof -
    from inv1 j have ok: "entryOk (deselectObject st) j" by (simp add: selectionInv_def)
    show ?thesis
      using ok unfolding entryOk_def select_nth [OF f n j] select_simple [OF f n]
      by (auto simp: Let_def)
  qed
  with i show ?thesis by (simp add: selectionInv_def select_simple [OF f n])
qed

lemma inv_runCalls: "selectionInv st \<Longrightarrow> selectionInv (runCalls cs st)"
  unfolding runCalls_def
proof (induction cs arbitrary: st)
  case Nil
  then show ?case by simp
next
  case (Cons c cs)
  have "selectionInv (runCall st c)"
    using Cons.prems by (cases c) (simp_all add: inv_select inv_deselect)
  from Cons.IH [OF this] show ?case by simp
qed

lemma find_core:
  "map coreOf ds = map coreOf ds' \<Longrightarrow> findObjectData ds ob = findObjectData ds' ob"
proof -
  have "\<And>k ds'. map coreOf ds = map coreOf ds' \<Longrightarrow>
          findObjectDataFrom k ds ob = findObjectDataFrom k ds' ob"
  proof (induction ds)
    case Nil
    then show ?case by simp
  next
    case (Cons d ds)
    from Cons.prems obtain e es where e: "ds' = e # es" "coreOf d = coreOf e"
      "map coreOf ds = map coreOf es" by (cases ds') auto
    from e(2) have "uuid (object d) = uuid (object e)" by (simp add: coreOf_def)
    with Cons.IH [OF e(3)] e(1) show ?case by simp
  qed
  then show "map coreOf ds = map coreOf ds' \<Longrightarrow> findObjectData ds ob = findObjectData ds' ob"
    by (simp add: findObjectData_def)
qed

lemma deselect_twice: "deselectObject (deselectObject st) = deselectObject st"
proof -
  have "selectedObjectData (deselectObject st) = None"
    "isDraggingTransform (deselectObject st) = False" by simp_all
  then show ?thesis by (simp add: deselectObject_def [of "deselectObject st"])
qed

lemma select_after_deselect:
  assumes f: "findObjectData (loadedObjects st) ob = Some i" and n: "\<not> alreadySelected st ob"
  shows "selectObject st ob = selectObject (deselectObject st) ob"
proof -
  have f': "findObjectData (loadedObjects (deselectObject st)) ob = Some i"
    using find_core [OF core_deselectObject [of st], of ob] f by simp
  have n': "\<not> alreadySelected (deselectObject st) ob" by (simp add: alreadySelected_def)
  have "selectObject (deselectObject st) ob =
        (let st1 = deselectObject st;
             st2 = st1\<lparr>selectedObjectData := Some i\<rparr>;
             st3 = st2\<lparr>loadedObjects :=
                        (loadedObjects st2)[i := setSelectedClass True (loadedObjects st2 ! i)]\<rparr>;
             st4 = st3\<lparr>attached := Some (uuid (object (loadedObjects st3 ! i)))\<rparr>;
             st5 = setTransformMode st4 Translate
         in st5\<lparr>loadedObjects :=
                  (loadedObjects st5)
                    [i := updateBoxHelperState (loadedObjects st5 ! i) True
                            (isDraggingTransform st5)]\<rparr>)"
    using f' by (simp add: selectObject_def [of "deselectObject st"] deselect_twice)
  also have "\<dots> = selectObject st ob"
    using f n by (simp add: selectObject_def [of st] alreadySelected_def split: option.splits)
  finally show ?thesis by simp
qed

text \<open>
  Claim C8. From any state that satisfies the selection invariant (the state at page
  load does, and every import of an object with a fresh uuid keeps it), any sequence
  of \<^verbatim>\<open>selectObject\<close> and \<^verbatim>\<open>deselectObject\<close> calls ends in a state that satisfies
  it: the selection is one entry of the registry or none, exactly that entry's row is
  marked selected, and while no drag is in progress exactly that entry's highlight box
  is visible, in the active colour. Selecting the already-selected object changes
  nothing. Selecting another registered object is the same as deselecting first and
  then selecting it; it ends with that object selected and no drag in progress.
\<close>

theorem selection_invariant:
  assumes "selectionInv st"
  shows "selectionInv (runCalls calls st) \<and>
         (alreadySelected st ob \<longrightarrow> selectObject st ob = st) \<and>
         (\<forall>i. findObjectData (loadedObjects st) ob = Some i \<and> \<not> alreadySelected st ob \<longrightarrow>
              selectObject st ob = selectObject (deselectObject st) ob \<and>
              selectedObjectData (selectObject st ob) = Some i \<and>
              \<not> isDraggingTransform (selectObject st ob))"
proof (intro conjI allI impI)
  show "selectionInv (runCalls calls st)" by (rule inv_runCalls [OF assms])
next
  assume "alreadySelected st ob"
  then show "selectObject st ob = st" by (simp add: select_noop)
next
  fix i
  assume "findObjectData (loadedObjects st) ob = Some i \<and> \<not> alreadySelected st ob"
  then have f: "findObjectData (loadedObjects st) ob = Some i" and n: "\<not> alreadySelected st ob"
    by simp_all
  show "selectObject st ob = selectObject (deselectObject st) ob"
    by (rule select_after_deselect [OF f n])
  show "selectedObjectData (selectObject st ob) = Some i" by (rule select_simple [OF f n])
  show "\<not> isDraggingTransform (selectObject st ob)" by (simp add: select_simple [OF f n])
qed

lemma inv_fields [simp]:
  "selectionInv (st\<lparr>spinnerShown := a\<rparr>) = selectionInv st"
  "selectionInv (st\<lparr>fileInputValue := b\<rparr>) = selectionInv st"
  by (simp_all add: selectionInv_def entryOk_def split: option.splits)

lemma inv_finishImport [simp]: "selectionInv (finishImport st) = selectionInv st"
  by (simp add: finishImport_def)

lemma inv_initial: "selectionInv initialState"
  by (simp add: selectionInv_def initialState_def)

lemma uuid_placeImported: "uuid (placeImported rnd ob sz outcome) = uuid ob"
  by (simp add: placeImported_def scaleAndPlace_def Let_def
      split: promptOutcome.splits option.splits)

lemma inv_import:
  assumes inv: "selectionInv st"
    and fresh: "\<forall>d \<in> set (loadedObjects st). uuid (object d) \<noteq> newUuid ev"
  shows "selectionInv (handleFileSelect rnd pf st ev)"
proof -
  have "selectionInv (onLoad rnd pf st' ev (Parsed vs))"
    if st': "st' = st\<lparr>spinnerShown := True\<rparr>" for st' vs
  proof (cases "abortedAnswers pf (answers ev)")
    case True
    with inv show ?thesis by (simp add: onLoad_aborted st')
  next
    case False
    let ?n = "length (loadedObjects st)"
    let ?placed = "placeImported rnd (parsedObject (newUuid ev) vs)
                     (naturalSize rnd (parsedObject (newUuid ev) vs))
                     (promptDimensions pf (answers ev))"
    let ?entry = "\<lparr>object = ?placed, initialSize = naturalSize rnd (parsedObject (newUuid ev) vs),
                   listItem = \<lparr>objectUuid = uuid ?placed, selectedClass = False, dimsLabel = None\<rparr>,
                   boxHelper = Some \<lparr>color = BOX_HELPER_COLOR_INACTIVE, visible = False\<rparr>\<rparr>"
    let ?st1 = "st'\<lparr>objectNameCounter := objectNameCounter st' + 1,
                    sceneHelpers := sceneHelpers st' @ [uuid ?placed],
                    sceneObjects := sceneObjects st' @ [uuid ?placed],
                    listRows := listRows st' @ [uuid ?placed],
                    loadedObjects := loadedObjects st' @ [?entry]\<rparr>"
    let ?st2 = "updateListItemContent rnd ?st1 ?n"
    have up: "uuid ?placed = newUuid ev"
      by (simp add: uuid_placeImported parsedObject_def)
    have sel: "\<And>s. selectedObjectData st = Some s \<Longrightarrow>
                s < ?n \<and> uuid (object (loadedObjects st ! s)) \<noteq> newUuid ev"
      using inv fresh by (auto simp: selectionInv_def)
    have st2: "?st2 = ?st1\<lparr>loadedObjects := loadedObjects st @
                 [?entry\<lparr>listItem := (listItem ?entry)\<lparr>dimsLabel :=
                    Some (getObjectDimensions rnd ?placed)\<rparr>\<rparr>]\<rparr>"
      using sel
      by (cases "selectedObjectData st")
         (auto simp: updateListItemContent_def Let_def st' nth_append up)
    have inv2: "selectionInv ?st2"
      unfolding st2 using inv
      by (auto simp: selectionInv_def entryOk_def st' nth_append hasHelper_def highlightShown_def
          highlightActive_def less_Suc_eq split: option.splits)
    have "onLoad rnd pf st' ev (Parsed vs) = finishImport (selectObject ?st2 (uuid ?placed))"
      using False
      by (cases "promptDimensions pf (answers ev)")
         (simp_all add: aborted_outcome onLoad_def Let_def st')
    then show ?thesis using inv_select [OF inv2] by simp
  qed
  moreover have "selectionInv (onLoad rnd pf st' ev ParseThrows)"
    if "st' = st\<lparr>spinnerShown := True\<rparr>" for st'
    using inv that by (simp add: onLoad_def)
  ultimately have "selectionInv (onLoad rnd pf (st\<lparr>spinnerShown := True\<rparr>) ev parsed)" for parsed
    by (cases parsed) simp_all
  then show ?thesis
    using inv
    by (simp add: handleFileSelect_def split: option.splits readOutcome.splits)
qed

lemma inv_cubeScene: "selectionInv cubeScene"
  unfolding cubeScene_def by (rule inv_import [OF inv_initial]) (simp add: initialState_def)

lemma inv_twoCubeScene: "selectionInv twoCubeScene"
  unfolding twoCubeScene_def
proof (rule inv_import [OF inv_cubeScene])
  from example_import_core [OF accepted_example(1), of roundDouble 1 unitCube]
  obtain x where x: "loadedObjects cubeScene = [x]"
    and "coreOf x = (placeImported roundDouble (parsedObject 1 unitCube)
                       (naturalSize roundDouble (parsedObject 1 unitCube))
                       (promptDimensions exampleParseFloat (answersOf ''1'' ''1'' ''1'')),
                     naturalSize roundDouble (parsedObject 1 unitCube))"
    unfolding cubeScene_def
    by (cases "loadedObjects (handleFileSelect roundDouble exampleParseFloat initialState
         (importOf 1 unitCube (answersOf ''1'' ''1'' ''1'')))") auto
  then have "uuid (object x) = 1"
    by (simp add: coreOf_def uuid_placeImported parsedObject_def)
  with x show "\<forall>d\<in>set (loadedObjects cubeScene).
      uuid (object d) \<noteq> newUuid (importOf 2 unitCube (answersOf ''1'' ''1'' ''1''))"
    by (simp add: importOf_def)
qed

theorem selection_invariant_witness:
  "selectionInv twoCubeScene \<and>
   selectionInv (runCalls [SelectObject 1, DeselectObject, SelectObject 2, SelectObject 2] twoCubeScene)"
  using selection_invariant [OF inv_twoCubeScene,
      of "[SelectObject 1, DeselectObject, SelectObject 2, SelectObject 2]"] inv_twoCubeScene
  by simp

theorem invalid_input_aborts_witness:
  "loadedObjects (handleFileSelect roundDouble exampleParseFloat initialState
      (importOf 1 unitCube (answersOf ''2'' ''abc'' ''2''))) = [] \<and>
   promptAndSetDimensions roundDouble exampleParseFloat cubeScene (Some 0)
     (answersOf ''2'' ''abc'' ''2'') = cubeScene"
proof -
  let ?ev = "importOf 1 unitCube (answersOf ''2'' ''abc'' ''2'')"
  have h: "abortedAnswers exampleParseFloat (answers ?ev)"
    by (simp add: importOf_def answersOf_def abortedAnswers_def rejectedAnswer_def
        rejectedNumber_def exampleParseFloat_def)
  from invalid_input_aborts [OF h, of roundDouble initialState]
  have "loadedObjects (handleFileSelect roundDouble exampleParseFloat initialState ?ev) =
        loadedObjects (initialState\<lparr>spinnerShown :=
            spinnerShown (handleFileSelect roundDouble exampleParseFloat initialState ?ev),
          fileInputValue := []\<rparr>)"
    by simp
  then have "loadedObjects (handleFileSelect roundDouble exampleParseFloat initialState ?ev) = []"
    by (simp add: initialState_def)
  moreover from invalid_input_aborts [OF h, of roundDouble cubeScene "Some 0"]
  have "promptAndSetDimensions roundDouble exampleParseFloat cubeScene (Some 0)
          (answersOf ''2'' ''abc'' ''2'') = cubeScene"
    by (simp add: importOf_def)
  ultimately show ?thesis by simp
qed

end
